theory Spec2Isabelle
  imports Main "HOL-Library.Sublist"
begin

text \<open>
  The staff page of the school administration panel (\<^verbatim>\<open>StaffManagement\<close>): its search
  filter, its data loader and the handlers of its form, as functions on the state of the
  page. A handler that awaits the store takes the store as an argument and returns, with
  the new state, the store it leaves and the events it caused, in order. Each handler is
  run alone, from start to end.
\<close>

section \<open>Values, objects and documents\<close>

text \<open>
  The page keeps plain objects whose fields come from the documents of the backing store
  and from the text widgets of the form: a field holds a string or \<^verbatim>\<open>null\<close>, and a field
  that is absent reads as \<^verbatim>\<open>undefined\<close>, which is \<open>None\<close> here. Strings are HOL strings:
  sequences of characters with codes below 256, read as the code points of Basic Latin
  and Latin-1.
\<close>

datatype jsval = JNull | JStr string

type_synonym obj = "string \<rightharpoonup> jsval"

text \<open>A document of a collection: its identifier and its field map.\<close>

type_synonym document = "string \<times> obj"

datatype error = TypeError | FirestoreError

text \<open>\<^verbatim>\<open>{ id: doc.id, ...doc.data() }\<close>: the spread comes last, so a field \<^verbatim>\<open>id\<close> of the
  data wins over the document's identifier.\<close>

definition toRecord :: "document \<Rightarrow> obj" where
  "toRecord d = [''id'' \<mapsto> JStr (fst d)] ++ snd d"

text \<open>String conversion, as a template literal and a property key apply it.\<close>

fun toString :: "jsval option \<Rightarrow> string" where
  "toString None = ''undefined''"
| "toString (Some JNull) = ''null''"
| "toString (Some (JStr s)) = s"

text \<open>Truthiness, as \<^verbatim>\<open>!x\<close> and \<^verbatim>\<open>x ? a : b\<close> read it.\<close>

fun truthy :: "jsval option \<Rightarrow> bool" where
  "truthy None = False"
| "truthy (Some JNull) = False"
| "truthy (Some (JStr s)) = (s \<noteq> [])"

section \<open>The search filter\<close>

text \<open>\<^verbatim>\<open>toLowerCase\<close> works letter by letter on these characters. The capital letters
  among them have the codes 65 to 90 (A to Z) and 192 to 222 without 215 (the accented
  capitals of Latin-1, without the multiplication sign); the small letter of each has the
  code 32 above. Every other character is kept.\<close>

definition isUpperCode :: "nat \<Rightarrow> bool" where
  "isUpperCode n \<longleftrightarrow> (65 \<le> n \<and> n \<le> 90) \<or> (192 \<le> n \<and> n \<le> 222 \<and> n \<noteq> 215)"

definition lowerChar :: "char \<Rightarrow> char" where
  "lowerChar c = (if isUpperCode (of_char c) then char_of (of_char c + 32 :: nat) else c)"

definition toLowerCase :: "string \<Rightarrow> string" where
  "toLowerCase s = map lowerChar s"

text \<open>\<^verbatim>\<open>field.toLowerCase()\<close> on a field of a record: a value that is not a string has no
  such method (and \<^verbatim>\<open>undefined\<close> and \<^verbatim>\<open>null\<close> have no properties), so the call throws.\<close>

fun fieldToLowerCase :: "jsval option \<Rightarrow> error + string" where
  "fieldToLowerCase (Some (JStr s)) = Inr (toLowerCase s)"
| "fieldToLowerCase _ = Inl TypeError"

text \<open>\<^verbatim>\<open>s.includes(q)\<close>: \<open>q\<close> occurs in \<open>s\<close> at some position.\<close>

fun str_includes :: "string \<Rightarrow> string \<Rightarrow> bool" where
  "str_includes [] q = (q = [])"
| "str_includes (c # cs) q = (prefix q (c # cs) \<or> str_includes cs q)"

text \<open>\<^verbatim>\<open>Array.prototype.some\<close> and \<^verbatim>\<open>Array.prototype.filter\<close> with a callback that may
  throw: \<open>some\<close> stops at the first element the callback accepts, \<open>filter\<close> visits every
  element, and both pass on the first exception.\<close>

fun array_some :: "('a \<Rightarrow> error + bool) \<Rightarrow> 'a list \<Rightarrow> error + bool" where
  "array_some p [] = Inr False"
| "array_some p (x # xs) =
     (case p x of
        Inl e \<Rightarrow> Inl e
      | Inr b \<Rightarrow> if b then Inr True else array_some p xs)"

fun array_filter :: "('a \<Rightarrow> error + bool) \<Rightarrow> 'a list \<Rightarrow> error + 'a list" where
  "array_filter p [] = Inr []"
| "array_filter p (x # xs) =
     (case p x of
        Inl e \<Rightarrow> Inl e
      | Inr b \<Rightarrow>
          (case array_filter p xs of
             Inl e \<Rightarrow> Inl e
           | Inr ys \<Rightarrow> Inr (if b then x # ys else ys)))"

text \<open>The five fields the filter destructures, in the order of the array it builds.\<close>

definition searchFields :: "string list" where
  "searchFields = [''firstName'', ''lastName'', ''position'', ''department'', ''course'']"

text \<open>The callback of \<open>some\<close>: the field is lowered first, then the query.\<close>

definition fieldMatches :: "string \<Rightarrow> jsval option \<Rightarrow> error + bool" where
  "fieldMatches searchQuery field =
     (case fieldToLowerCase field of
        Inl e \<Rightarrow> Inl e
      | Inr l \<Rightarrow> Inr (str_includes l (toLowerCase searchQuery)))"

definition rowMatches :: "string \<Rightarrow> obj \<Rightarrow> error + bool" where
  "rowMatches searchQuery row =
     array_some (fieldMatches searchQuery)
       [row ''firstName'', row ''lastName'', row ''position'', row ''department'', row ''course'']"

text \<open>\<open>filteredStaff\<close> is a function of the two dependencies of its memo, the staff list
  and the query.\<close>

definition filteredStaff :: "obj list \<Rightarrow> string \<Rightarrow> error + obj list" where
  "filteredStaff staff searchQuery = array_filter (rowMatches searchQuery) staff"

subsection \<open>What the specification asks of the filter\<close>

text \<open>The capital letters, and at the same positions their small letters: A to Z, then
  the accented capitals of Latin-1. Two characters are the same letter when they are
  equal or are the capital and the small form of one letter. A string contains a query
  case-insensitively when a contiguous part of it is the query, letter for letter in this
  sense.\<close>

definition upperLetters :: string where
  "upperLetters = ''ABCDEFGHIJKLMNOPQRSTUVWXYZ'' @ map char_of ([192..<215] @ [216..<223] :: nat list)"

definition lowerLetters :: string where
  "lowerLetters = ''abcdefghijklmnopqrstuvwxyz'' @ map char_of ([224..<247] @ [248..<255] :: nat list)"

definition sameLetter :: "char \<Rightarrow> char \<Rightarrow> bool" where
  "sameLetter a b \<longleftrightarrow>
     a = b \<or> (a, b) \<in> set (zip upperLetters lowerLetters) \<or>
     (b, a) \<in> set (zip upperLetters lowerLetters)"

definition containsCI :: "string \<Rightarrow> string \<Rightarrow> bool" where
  "containsCI s q \<longleftrightarrow> (\<exists>pre mid suf. s = pre @ mid @ suf \<and> list_all2 sameLetter mid q)"

text \<open>A record is searchable when its five search fields hold strings, as the fields of
  a StaffRecord do.\<close>

definition searchable :: "obj \<Rightarrow> bool" where
  "searchable row \<longleftrightarrow> (\<forall>f \<in> set searchFields. \<exists>v. row f = Some (JStr v))"

definition matchesQuery :: "string \<Rightarrow> obj \<Rightarrow> bool" where
  "matchesQuery q row \<longleftrightarrow> (\<exists>f \<in> set searchFields. \<exists>v. row f = Some (JStr v) \<and> containsCI v q)"

section \<open>The backing store\<close>

text \<open>The calls the page makes to the store: read a collection, create a document in a
  collection, update a document, delete a document. A document is addressed by the path
  of its collection and its identifier.\<close>

datatype request =
    GetDocs string
  | AddDoc string obj
  | UpdateDoc "string \<times> string" obj
  | DeleteDoc "string \<times> string"

text \<open>Modelled from the spec: the backing store, an external collaborator whose client
  library is not part of the repository. It holds the documents of every collection by
  path. Any call can fail for reasons of its own (the network, permissions, an invalid
  path), which \<open>rejects\<close> decides, and \<open>autoId\<close> is the identifier the store assigns to
  the next document created in a collection.\<close>

record world =
  colls :: "string \<Rightarrow> document list"
  rejects :: "request \<Rightarrow> bool"
  autoId :: "document list \<Rightarrow> string"

text \<open>Modelled from the spec: read-all on a named collection gives its sequence of
  (identifier, field map) pairs.\<close>

definition getDocs :: "world \<Rightarrow> string \<Rightarrow> error + document list" where
  "getDocs w path =
     (if rejects w (GetDocs path) then Inl FirestoreError else Inr (colls w path))"

text \<open>Modelled from the spec: create in a named collection with a field map assigns a
  new identifier.\<close>

definition addDoc :: "world \<Rightarrow> string \<Rightarrow> obj \<Rightarrow> error + world" where
  "addDoc w path data =
     (if rejects w (AddDoc path data) then Inl FirestoreError
      else Inr (w\<lparr>colls := (colls w)(path := colls w path @ [(autoId w (colls w path), data)])\<rparr>))"

text \<open>Modelled from the spec: update by identifier replaces the listed fields and is
  an error if the identifier is absent.\<close>

definition updateDoc :: "world \<Rightarrow> string \<times> string \<Rightarrow> obj \<Rightarrow> error + world" where
  "updateDoc w ref data =
     (if rejects w (UpdateDoc ref data) \<or> snd ref \<notin> fst ` set (colls w (fst ref))
      then Inl FirestoreError
      else Inr (w\<lparr>colls := (colls w)(fst ref :=
             map (\<lambda>d. if fst d = snd ref then (fst d, snd d ++ data) else d)
               (colls w (fst ref)))\<rparr>))"

text \<open>Modelled from the spec: delete by identifier removes the record and is an error
  if the identifier is absent.\<close>

definition deleteDoc :: "world \<Rightarrow> string \<times> string \<Rightarrow> error + world" where
  "deleteDoc w ref =
     (if rejects w (DeleteDoc ref) \<or> snd ref \<notin> fst ` set (colls w (fst ref))
      then Inl FirestoreError
      else Inr (w\<lparr>colls := (colls w)(fst ref :=
             filter (\<lambda>d. fst d \<noteq> snd ref) (colls w (fst ref)))\<rparr>))"

text \<open>Modelled from the spec: a record is identified in its collection by an opaque
  string. \<^verbatim>\<open>doc(db, path, id)\<close> of the client library, which is not part of the
  repository, makes the reference of the document \<open>id\<close> of the collection \<open>path\<close>. The
  identifier is one segment of a path, so the call throws on a value that is not a
  string, on the empty string and on a string with a slash.\<close>

definition doc :: "string \<Rightarrow> jsval option \<Rightarrow> error + string \<times> string" where
  "doc path segment =
     (case segment of
        Some (JStr i) \<Rightarrow>
          if i = [] \<or> CHR ''/'' \<in> set i then Inl FirestoreError else Inr (path, i)
      | _ \<Rightarrow> Inl TypeError)"

text \<open>A request, sent to the store; a read leaves the store as it is.\<close>

fun send :: "world \<Rightarrow> request \<Rightarrow> error + world" where
  "send w (GetDocs path) = (case getDocs w path of Inl e \<Rightarrow> Inl e | Inr _ \<Rightarrow> Inr w)"
| "send w (AddDoc path data) = addDoc w path data"
| "send w (UpdateDoc ref data) = updateDoc w ref data"
| "send w (DeleteDoc ref) = deleteDoc w ref"

section \<open>The state of the page\<close>

text \<open>The six state cells of \<^verbatim>\<open>StaffManagement\<close>. \<open>formData\<close> is the form buffer and
  \<open>selectedStaff\<close> the editing target (\<open>None\<close> is \<^verbatim>\<open>null\<close>).\<close>

record state =
  staff :: "obj list"
  formData :: obj
  departments :: "obj list"
  allCourses :: "string \<rightharpoonup> obj list"
  selectedStaff :: "obj option"
  searchQuery :: string

definition emptyForm :: obj where
  "emptyForm =
     [''firstName'' \<mapsto> JStr '''', ''lastName'' \<mapsto> JStr '''', ''gender'' \<mapsto> JStr '''',
      ''address'' \<mapsto> JStr '''', ''mobileNumber'' \<mapsto> JStr '''', ''position'' \<mapsto> JStr '''',
      ''department'' \<mapsto> JStr '''', ''course'' \<mapsto> JStr '''']"

definition initialState :: state where
  "initialState =
     \<lparr>staff = [], formData = emptyForm, departments = [], allCourses = Map.empty,
      selectedStaff = None, searchQuery = ''''\<rparr>"

text \<open>What a handler does besides changing the state: calls to the store, modal
  notifications (title, text, icon), the confirmation prompt (title, text) and lines on
  the console.\<close>

datatype event =
    Call request
  | Notify string string string
  | Confirm string string
  | ConsoleError string

text \<open>The result of running a handler: the store and the state it leaves, the events in
  order, the state the page shows at each \<^verbatim>\<open>await\<close> (the handler is suspended there and
  the updates made so far are rendered), and the exception that left the handler
  uncaught, if any.\<close>

record outcome =
  world_of :: world
  state_of :: state
  trace :: "event list"
  views :: "state list"
  thrown :: "error option"

section \<open>The data loader\<close>

definition fetchError :: "event list" where
  "fetchError =
     [ConsoleError ''Error fetching data: '',
      Notify ''Error!'' ''There was an error fetching the data.'' ''error'']"

definition coursesPath :: "obj \<Rightarrow> string" where
  "coursesPath department = ''Departments/'' @ toString (department ''id'') @ ''/Courses''"

text \<open>The loop over the departments: the paths read, in order, and either the error of
  the read that failed or the finished mapping.\<close>

fun fetchCourses ::
  "world \<Rightarrow> obj list \<Rightarrow> (string \<rightharpoonup> obj list) \<Rightarrow> string list \<times> (error + (string \<rightharpoonup> obj list))"
where
  "fetchCourses w [] coursesByDept = ([], Inr coursesByDept)"
| "fetchCourses w (department # rest) coursesByDept =
     (case getDocs w (coursesPath department) of
        Inl e \<Rightarrow> ([coursesPath department], Inl e)
      | Inr courseSnapshot \<Rightarrow>
          (case fetchCourses w rest
                  (coursesByDept(toString (department ''id'') \<mapsto> map toRecord courseSnapshot)) of
             (paths, r) \<Rightarrow> (coursesPath department # paths, r)))"

definition fetchData :: "world \<Rightarrow> state \<Rightarrow> outcome" where
  "fetchData w s =
     (case getDocs w ''Staff'' of
        Inl e \<Rightarrow>
          \<lparr>world_of = w, state_of = s,
           trace = Call (GetDocs ''Staff'') # fetchError,
           views = [s], thrown = None\<rparr>
      | Inr staffDocs \<Rightarrow>
          (let s1 = s\<lparr>staff := map toRecord staffDocs\<rparr> in
           case getDocs w ''Departments'' of
             Inl e \<Rightarrow>
               \<lparr>world_of = w, state_of = s1,
                trace = Call (GetDocs ''Staff'') # Call (GetDocs ''Departments'') # fetchError,
                views = [s, s1], thrown = None\<rparr>
           | Inr deptSnapshot \<Rightarrow>
               (let depts = map toRecord deptSnapshot;
                    s2 = s1\<lparr>departments := depts\<rparr> in
                case fetchCourses w depts Map.empty of
                  (paths, Inl e) \<Rightarrow>
                    \<lparr>world_of = w, state_of = s2,
                     trace = Call (GetDocs ''Staff'') # Call (GetDocs ''Departments'') #
                       map (\<lambda>p. Call (GetDocs p)) paths @ fetchError,
                     views = s # s1 # map (\<lambda>p. s2) paths, thrown = None\<rparr>
                | (paths, Inr coursesByDept) \<Rightarrow>
                    \<lparr>world_of = w, state_of = s2\<lparr>allCourses := coursesByDept\<rparr>,
                     trace = Call (GetDocs ''Staff'') # Call (GetDocs ''Departments'') #
                       map (\<lambda>p. Call (GetDocs p)) paths,
                     views = s # s1 # map (\<lambda>p. s2) paths, thrown = None\<rparr>)))"

section \<open>The form and its handlers\<close>

definition handleChange :: "string \<Rightarrow> string \<Rightarrow> state \<Rightarrow> state" where
  "handleChange field val s = s\<lparr>formData := (formData s)(field \<mapsto> JStr val)\<rparr>"

definition resetForm :: "state \<Rightarrow> state" where
  "resetForm s = s\<lparr>formData := emptyForm, selectedStaff := None\<rparr>"

text \<open>\<open>handleEdit\<close> stores the row itself in both cells (and scrolls the window to the
  top, which changes nothing here).\<close>

definition handleEdit :: "obj \<Rightarrow> state \<Rightarrow> state" where
  "handleEdit staffMember s = s\<lparr>formData := staffMember, selectedStaff := Some staffMember\<rparr>"

text \<open>The first lines of \<open>handleSubmit\<close>: the reference built before the \<^verbatim>\<open>try\<close>
  block (of the document of the target, or of the collection) and the call made on it
  inside. An exception of \<open>doc\<close> is thrown before the block and is not caught.\<close>

definition saveRequest :: "state \<Rightarrow> error + request" where
  "saveRequest s =
     (case selectedStaff s of
        Some target \<Rightarrow>
          (case doc ''Staff'' (target ''id'') of
             Inl e \<Rightarrow> Inl e
           | Inr staffRef \<Rightarrow> Inr (UpdateDoc staffRef (formData s)))
      | None \<Rightarrow> Inr (AddDoc ''Staff'' (formData s)))"

definition saveError :: "event list" where
  "saveError =
     [ConsoleError ''Error saving staff data: '',
      Notify ''Error!'' ''There was an error saving the staff data.'' ''error'']"

definition saveSuccess :: "state \<Rightarrow> event" where
  "saveSuccess s =
     Notify ''Success!''
       (''Staff has been '' @ (if selectedStaff s \<noteq> None then ''updated'' else ''added'') @ ''.'')
       ''success''"

definition handleSubmit :: "world \<Rightarrow> state \<Rightarrow> outcome" where
  "handleSubmit w s =
     (case saveRequest s of
        Inl e \<Rightarrow> \<lparr>world_of = w, state_of = s, trace = [], views = [], thrown = Some e\<rparr>
      | Inr rq \<Rightarrow>
          (case send w rq of
             Inl e \<Rightarrow>
               \<lparr>world_of = w, state_of = s, trace = Call rq # saveError,
                views = [s], thrown = None\<rparr>
           | Inr w' \<Rightarrow>
               (let r = fetchData w' (resetForm s) in
                \<lparr>world_of = w', state_of = state_of r,
                 trace = Call rq # saveSuccess s # trace r,
                 views = s # views r, thrown = None\<rparr>)))"

definition deletePrompt :: event where
  "deletePrompt = Confirm ''Are you sure?'' ''You will not be able to recover this staff member!''"

definition deleteError :: "event list" where
  "deleteError =
     [ConsoleError ''Error deleting staff member: '',
      Notify ''Error!'' ''There was an error deleting the staff member.'' ''error'']"

definition deleteSuccess :: event where
  "deleteSuccess = Notify ''Deleted!'' ''Staff member has been deleted.'' ''success''"

text \<open>\<open>isConfirmed\<close> is the answer of the user to the prompt. Here the reference is
  built inside the \<^verbatim>\<open>try\<close> block.\<close>

definition handleDelete :: "world \<Rightarrow> state \<Rightarrow> obj \<Rightarrow> bool \<Rightarrow> outcome" where
  "handleDelete w s staffMember isConfirmed =
     (if isConfirmed then
        (case doc ''Staff'' (staffMember ''id'') of
           Inl e \<Rightarrow>
             \<lparr>world_of = w, state_of = s, trace = deletePrompt # deleteError,
              views = [s], thrown = None\<rparr>
         | Inr ref \<Rightarrow>
             (case deleteDoc w ref of
                Inl e \<Rightarrow>
                  \<lparr>world_of = w, state_of = s,
                   trace = deletePrompt # Call (DeleteDoc ref) # deleteError,
                   views = [s, s], thrown = None\<rparr>
              | Inr w' \<Rightarrow>
                  (let r = fetchData w' s in
                   \<lparr>world_of = w', state_of = state_of r,
                    trace = deletePrompt # Call (DeleteDoc ref) # deleteSuccess # trace r,
                    views = s # s # views r, thrown = None\<rparr>)))
      else \<lparr>world_of = w, state_of = s, trace = [deletePrompt], views = [s], thrown = None\<rparr>)"

subsection \<open>The widgets of the form\<close>

definition GENDERS :: "string list" where
  "GENDERS = [''Male'', ''Female'', ''Other'']"

definition POSITIONS :: "string list" where
  "POSITIONS = [''Teacher'', ''Course Head'', ''Department Head'', ''Registrar'', ''Admin'']"

text \<open>The value a widget shows for its cell of the buffer. A text input shows the
  string of the cell; a select shows the option equal to the string of the cell, or else
  the placeholder, whose value is empty. A cell that is not a string (it is missing or
  null) leaves the widget alone: it goes on showing \<open>before\<close>, the value it showed
  before.\<close>

definition inputValue :: "string \<Rightarrow> jsval option \<Rightarrow> string" where
  "inputValue before v = (case v of Some (JStr x) \<Rightarrow> x | _ \<Rightarrow> before)"

definition selectValue :: "string list \<Rightarrow> string \<Rightarrow> jsval option \<Rightarrow> string" where
  "selectValue options before v =
     (case v of Some (JStr x) \<Rightarrow> if x \<in> set options then x else '''' | _ \<Rightarrow> before)"

definition departmentOptions :: "state \<Rightarrow> string list" where
  "departmentOptions s = map (\<lambda>department. toString (department ''id'')) (departments s)"

text \<open>The form fires \<open>onSubmit\<close> only when every widget marked \<^verbatim>\<open>required\<close> shows a
  value that is not empty: the four text inputs and the selects of gender, position and
  department. The select of the course is not marked. \<open>shown\<close> gives, by the name of a
  widget, the value it showed before the buffer was rendered into the form.\<close>

definition formValid :: "state \<Rightarrow> (string \<Rightarrow> string) \<Rightarrow> bool" where
  "formValid s shown \<longleftrightarrow>
     (\<forall>field \<in> set [''firstName'', ''lastName'', ''address'', ''mobileNumber''].
        inputValue (shown field) (formData s field) \<noteq> '''') \<and>
     selectValue GENDERS (shown ''gender'') (formData s ''gender'') \<noteq> '''' \<and>
     selectValue POSITIONS (shown ''position'') (formData s ''position'') \<noteq> '''' \<and>
     selectValue (departmentOptions s) (shown ''department'') (formData s ''department'') \<noteq> ''''"

definition onSubmit :: "world \<Rightarrow> state \<Rightarrow> (string \<Rightarrow> string) \<Rightarrow> outcome" where
  "onSubmit w s shown =
     (if formValid s shown then handleSubmit w s
      else \<lparr>world_of = w, state_of = s, trace = [], views = [], thrown = None\<rparr>)"

text \<open>The select of the course: its options (value and label), the placeholder first,
  and whether it is disabled.\<close>

definition courseOptions :: "state \<Rightarrow> (string \<times> string) list" where
  "courseOptions s =
     ('''', ''Select Course'') #
     map (\<lambda>course. (toString (course ''id''), toString (course ''id'')))
       (case allCourses s (toString (formData s ''department'')) of
          None \<Rightarrow> []
        | Some courses \<Rightarrow> courses)"

definition courseDisabled :: "state \<Rightarrow> bool" where
  "courseDisabled s \<longleftrightarrow> \<not> truthy (formData s ''department'')"

section \<open>Reading a run\<close>

text \<open>The calls to the store and the notifications of a trace, in order.\<close>

fun callsOf :: "event list \<Rightarrow> request list" where
  "callsOf [] = []"
| "callsOf (Call rq # evs) = rq # callsOf evs"
| "callsOf (_ # evs) = callsOf evs"

fun notifications :: "event list \<Rightarrow> event list" where
  "notifications [] = []"
| "notifications (Notify title body icon # evs) = Notify title body icon # notifications evs"
| "notifications (_ # evs) = notifications evs"

text \<open>The lists a load reads from the store, and the mapping its loop builds from a
  list of departments when every read succeeds.\<close>

definition loadedStaff :: "world \<Rightarrow> obj list" where
  "loadedStaff w = map toRecord (colls w ''Staff'')"

definition loadedDepartments :: "world \<Rightarrow> obj list" where
  "loadedDepartments w = map toRecord (colls w ''Departments'')"

definition loadedCourses :: "world \<Rightarrow> obj list \<Rightarrow> (string \<rightharpoonup> obj list) \<Rightarrow> (string \<rightharpoonup> obj list)" where
  "loadedCourses w depts acc =
     foldl (\<lambda>m department.
         m(toString (department ''id'') \<mapsto> map toRecord (colls w (coursesPath department))))
       acc depts"

text \<open>A load fails when the store rejects the read of Staff, of Departments, or of the
  courses of one of the departments.\<close>

definition loadFails :: "world \<Rightarrow> bool" where
  "loadFails w \<longleftrightarrow>
     rejects w (GetDocs ''Staff'') \<or> rejects w (GetDocs ''Departments'') \<or>
     (\<exists>department \<in> set (loadedDepartments w). rejects w (GetDocs (coursesPath department)))"

text \<open>The field map a call writes, if it is a write.\<close>

fun payload :: "request \<Rightarrow> obj option" where
  "payload (AddDoc path data) = Some data"
| "payload (UpdateDoc ref data) = Some data"
| "payload _ = None"

text \<open>A series of edits in the form, each the name of a widget and the text typed or
  chosen; the widgets of the form are those of the eight fields of \<open>emptyForm\<close>.\<close>

definition formFields :: "string list" where
  "formFields =
     [''firstName'', ''lastName'', ''address'', ''mobileNumber'', ''gender'', ''position'',
      ''department'', ''course'']"

definition applyChanges :: "(string \<times> string) list \<Rightarrow> state \<Rightarrow> state" where
  "applyChanges edits s = fold (\<lambda>edit. handleChange (fst edit) (snd edit)) edits s"

subsection \<open>What the specification asks of a persisted record\<close>

text \<open>A field is filled when it holds a string that is not empty. The invariant of the
  data model: every field but the course is filled, and the course is empty only if no
  department is chosen.\<close>

definition filled :: "jsval option \<Rightarrow> bool" where
  "filled v = (case v of Some (JStr x) \<Rightarrow> x \<noteq> [] | _ \<Rightarrow> False)"

definition mandatoryFields :: "string list" where
  "mandatoryFields =
     [''firstName'', ''lastName'', ''gender'', ''address'', ''mobileNumber'', ''position'',
      ''department'']"

definition persistable :: "obj \<Rightarrow> bool" where
  "persistable data \<longleftrightarrow>
     (\<forall>f \<in> set mandatoryFields. filled (data f)) \<and>
     (\<not> filled (data ''course'') \<longrightarrow> \<not> filled (data ''department''))"

section \<open>Sample data\<close>

text \<open>Two staff documents and the rows the loader makes of them, used to run the
  definitions.\<close>

definition aliceData :: obj where
  "aliceData =
     [''firstName'' \<mapsto> JStr ''Alice'', ''lastName'' \<mapsto> JStr ''Cruz'',
      ''gender'' \<mapsto> JStr ''Female'', ''address'' \<mapsto> JStr ''Manila'',
      ''mobileNumber'' \<mapsto> JStr ''0917'', ''position'' \<mapsto> JStr ''Teacher'',
      ''department'' \<mapsto> JStr ''Board Courses'', ''course'' \<mapsto> JStr ''BSN'']"

definition bobData :: obj where
  "bobData =
     [''firstName'' \<mapsto> JStr ''Bob'', ''lastName'' \<mapsto> JStr ''Reyes'',
      ''gender'' \<mapsto> JStr ''Male'', ''address'' \<mapsto> JStr ''Cebu'',
      ''mobileNumber'' \<mapsto> JStr ''0918'', ''position'' \<mapsto> JStr ''Registrar'',
      ''department'' \<mapsto> JStr ''Non-Board Courses'', ''course'' \<mapsto> JStr '''']"

definition alice :: obj where
  "alice = toRecord (''s1'', aliceData)"


definition bob :: obj where
  "bob = toRecord (''s2'', bobData)"

text \<open>A store with one staff member and two departments, of which only the first has
  a course; it accepts every call. \<open>deptDown\<close> is the same store while it refuses the
  read of Departments, \<open>readOnly\<close> while it refuses every write, and \<open>emptyStore\<close> has
  no documents.\<close>

definition sampleColls :: "string \<Rightarrow> document list" where
  "sampleColls path =
     (if path = ''Staff'' then [(''s1'', aliceData)]
      else if path = ''Departments''
        then [(''Board Courses'', Map.empty), (''Non-Board Courses'', Map.empty)]
      else if path = ''Departments/Board Courses/Courses''
        then [(''BSN'', [''name'' \<mapsto> JStr ''Nursing''])]
      else [])"

definition online :: world where
  "online = \<lparr>colls = sampleColls, rejects = (\<lambda>rq. False), autoId = (\<lambda>docs. ''s2'')\<rparr>"

definition deptDown :: world where
  "deptDown =
     \<lparr>colls = sampleColls,
      rejects = (\<lambda>rq. case rq of GetDocs path \<Rightarrow> path = ''Departments'' | _ \<Rightarrow> False),
      autoId = (\<lambda>docs. ''s2'')\<rparr>"

definition readOnly :: world where
  "readOnly =
     \<lparr>colls = sampleColls,
      rejects = (\<lambda>rq. case rq of GetDocs path \<Rightarrow> False | _ \<Rightarrow> True),
      autoId = (\<lambda>docs. ''s2'')\<rparr>"

definition emptyStore :: world where
  "emptyStore = \<lparr>colls = (\<lambda>path. []), rejects = (\<lambda>rq. False), autoId = (\<lambda>docs. ''s1'')\<rparr>"

text \<open>The page after a load from \<open>online\<close>.\<close>

definition loaded :: state where
  "loaded = state_of (fetchData online initialState)"

text \<open>The form filled for a new staff member, and the form while Alice is edited.\<close>

definition bobEdits :: "(string \<times> string) list" where
  "bobEdits =
     [(''firstName'', ''Bob''), (''lastName'', ''Reyes''), (''address'', ''Cebu''),
      (''mobileNumber'', ''0918''), (''gender'', ''Male''), (''position'', ''Registrar''),
      (''department'', ''Non-Board Courses'')]"

definition bobForm :: state where
  "bobForm = applyChanges bobEdits loaded"

definition aliceEdit :: state where
  "aliceEdit = handleChange ''address'' ''Davao'' (handleEdit alice loaded)"

text \<open>A form whose widgets showed nothing before, and one whose address input showed a
  text; a row without an address, as the loader makes it of a document that has none.\<close>

definition blank :: "string \<Rightarrow> string" where
  "blank widget = []"

definition addressShown :: "string \<Rightarrow> string" where
  "addressShown widget = (if widget = ''address'' then ''Manila'' else [])"

definition noAddress :: obj where
  "noAddress = toRecord (''s1'', aliceData(''address'' := None))"

definition noAddressEdit :: state where
  "noAddressEdit = handleEdit noAddress loaded"

text \<open>A store whose staff document carries an \<open>id\<close> field of its own, holding null; the
  row the loader makes of it, and the page while this row is edited.\<close>

definition carolData :: obj where
  "carolData = aliceData(''id'' \<mapsto> JNull)"

definition imported :: world where
  "imported = online\<lparr>colls := (colls online)(''Staff'' := [(''s3'', carolData)])\<rparr>"

definition carol :: obj where
  "carol = toRecord (''s3'', carolData)"

definition carolEdit :: state where
  "carolEdit = handleEdit carol (state_of (fetchData imported initialState))"

text \<open>A query longer than every string among the search fields of a row: no field
  contains it.\<close>

definition longQuery :: "obj \<Rightarrow> string" where
  "longQuery row = replicate (Suc (length (concat (map (\<lambda>f. toString (row f)) searchFields)))) CHR ''x''"

section \<open>Properties of the filter\<close>

lemma str_includes_iff: "str_includes s q \<longleftrightarrow> (\<exists>pre suf. s = pre @ q @ suf)"
proof (induction s)
  case Nil
  then show ?case by auto
next
  case (Cons c cs)
  show ?case
  proof
    assume "str_includes (c # cs) q"
    then consider "prefix q (c # cs)" | "str_includes cs q" by auto
    then show "\<exists>pre suf. c # cs = pre @ q @ suf"
    proof cases
      case 1
      then obtain suf where "c # cs = q @ suf" by (auto simp: prefix_def)
      then have "c # cs = [] @ q @ suf" by simp
      then show ?thesis by blast
    next
      case 2
      with Cons.IH obtain pre suf where "cs = pre @ q @ suf" by blast
      then have "c # cs = (c # pre) @ q @ suf" by simp
      then show ?thesis by blast
    qed
  next
    assume "\<exists>pre suf. c # cs = pre @ q @ suf"
    then obtain pre suf where eq: "c # cs = pre @ q @ suf" by blast
    show "str_includes (c # cs) q"
    proof (cases pre)
      case Nil
      with eq have "prefix q (c # cs)" by (simp add: prefix_def)
      then show ?thesis by simp
    next
      case (Cons p ps)
      with eq have "cs = ps @ q @ suf" by simp
      with Cons.IH have "str_includes cs q" by blast
      then show ?thesis by simp
    qed
  qed
qed

lemma str_includes_longer: "length s < length q \<Longrightarrow> \<not> str_includes s q"
  by (auto simp: str_includes_iff)

subsection \<open>Lowering and the letters\<close>

lemma char_eq_char_of: "c = char_of n \<longleftrightarrow> take_bit 8 n = (of_char c :: nat)" for n :: nat
  using char_of_eq_iff [of n c] by auto

lemma letters_zip:
  "zip upperLetters lowerLetters =
     map (\<lambda>n. (char_of n, char_of (n + 32))) ([65..<91] @ [192..<215] @ [216..<223] :: nat list)"
  by (simp add: upperLetters_def lowerLetters_def upt_rec char_of_eq_iff char_eq_char_of)

lemma casePair_iff:
  "(u, l) \<in> set (zip upperLetters lowerLetters) \<longleftrightarrow>
     isUpperCode (of_char u) \<and> (of_char l :: nat) = of_char u + 32"
proof
  assume "(u, l) \<in> set (zip upperLetters lowerLetters)"
  then have "(u, l) \<in> (\<lambda>n::nat. (char_of n, char_of (n + 32))) `
      ({65..<91} \<union> ({192..<215} \<union> {216..<223}))"
    by (simp only: letters_zip set_map set_append set_upt)
  then obtain n :: nat where "n \<in> {65..<91} \<union> ({192..<215} \<union> {216..<223})"
    and u: "u = char_of n" and l: "l = char_of (n + 32)"
    by blast
  then have n: "isUpperCode n" by (auto simp: isUpperCode_def)
  from n have "n < 256" "n + 32 < 256" by (auto simp: isUpperCode_def)
  with u l have "(of_char u :: nat) = n" "(of_char l :: nat) = n + 32" by simp_all
  with n show "isUpperCode (of_char u) \<and> (of_char l :: nat) = of_char u + 32" by simp
next
  assume a: "isUpperCode (of_char u) \<and> (of_char l :: nat) = of_char u + 32"
  let ?n = "of_char u :: nat"
  have "u = char_of ?n" by simp
  moreover from a have "l = char_of (?n + 32)" by (metis char_of_char)
  moreover from a have "?n \<in> {65..<91} \<union> ({192..<215} \<union> {216..<223})"
    by (auto simp: isUpperCode_def)
  then have "?n \<in> set ([65..<91] @ [192..<215] @ [216..<223])"
    by (simp only: set_append set_upt)
  ultimately have "(u, l) \<in> (\<lambda>n. (char_of n, char_of (n + 32))) ` set ([65..<91] @ [192..<215] @ [216..<223])"
    by blast
  then show "(u, l) \<in> set (zip upperLetters lowerLetters)"
    by (simp only: letters_zip set_map)
qed

lemma of_char_lowerChar:
  "(of_char (lowerChar c) :: nat) = (if isUpperCode (of_char c) then of_char c + 32 else of_char c)"
proof (cases "isUpperCode (of_char c)")
  case True
  then have "(of_char c :: nat) + 32 < 256" by (auto simp: isUpperCode_def)
  with True show ?thesis by (simp add: lowerChar_def)
next
  case False
  then show ?thesis by (simp add: lowerChar_def)
qed

lemma lowerChar_eq_iff: "lowerChar a = lowerChar b \<longleftrightarrow> sameLetter a b"
proof -
  have inj: "x = y \<longleftrightarrow> (of_char x :: nat) = of_char y" for x y :: char
    by (metis char_of_char)
  have "lowerChar a = lowerChar b \<longleftrightarrow> (of_char (lowerChar a) :: nat) = of_char (lowerChar b)"
    by (rule inj)
  also have "\<dots> \<longleftrightarrow> sameLetter a b"
    unfolding sameLetter_def casePair_iff of_char_lowerChar inj [of a b]
    by (auto simp: isUpperCode_def)
  finally show ?thesis .
qed

lemma map_lowerChar_eq_iff:
  "map lowerChar xs = map lowerChar ys \<longleftrightarrow> list_all2 sameLetter xs ys"
proof (induction xs arbitrary: ys)
  case Nil
  then show ?case by auto
next
  case (Cons x xs)
  then show ?case by (cases ys) (auto simp: lowerChar_eq_iff)
qed

lemma includes_lowered_iff:
  "str_includes (toLowerCase s) (toLowerCase q) \<longleftrightarrow> containsCI s q"
proof
  assume "str_includes (toLowerCase s) (toLowerCase q)"
  then obtain pre suf where "map lowerChar s = pre @ map lowerChar q @ suf"
    by (auto simp: str_includes_iff toLowerCase_def)
  then obtain pre' rest where s: "s = pre' @ rest"
    and "map lowerChar q @ suf = map lowerChar rest"
    unfolding map_eq_append_conv by blast
  then obtain mid suf' where rest: "rest = mid @ suf'" and "map lowerChar mid = map lowerChar q"
    unfolding append_eq_map_conv by metis
  then have "list_all2 sameLetter mid q" by (simp add: map_lowerChar_eq_iff)
  with s rest show "containsCI s q" unfolding containsCI_def by blast
next
  assume "containsCI s q"
  then obtain pre mid suf where s: "s = pre @ mid @ suf" and "list_all2 sameLetter mid q"
    unfolding containsCI_def by blast
  then have "map lowerChar mid = map lowerChar q" by (simp add: map_lowerChar_eq_iff)
  with s have "toLowerCase s = map lowerChar pre @ toLowerCase q @ map lowerChar suf"
    by (simp add: toLowerCase_def)
  then show "str_includes (toLowerCase s) (toLowerCase q)"
    unfolding str_includes_iff by blast
qed

lemma fieldMatches_string:
  "fieldMatches q (Some (JStr v)) = Inr (containsCI v q)"
  by (simp add: fieldMatches_def includes_lowered_iff)

lemma array_some_total:
  assumes "\<forall>x \<in> set xs. p x = Inr (P x)"
  shows "array_some p xs = Inr (\<exists>x \<in> set xs. P x)"
  using assms by (induction xs) auto

lemma array_filter_total:
  assumes "\<forall>x \<in> set xs. p x = Inr (P x)"
  shows "array_filter p xs = Inr (filter P xs)"
  using assms by (induction xs) auto

lemma array_filter_throws:
  assumes "x \<in> set xs" and "p x = Inl TypeError"
    and "\<And>y e. p y = Inl e \<Longrightarrow> e = TypeError"
  shows "array_filter p xs = Inl TypeError"
  using assms(1,2)
proof (induction xs)
  case Nil
  then show ?case by simp
next
  case (Cons y ys)
  show ?case
  proof (cases "p y")
    case (Inl e)
    with assms(3) show ?thesis by auto
  next
    case (Inr b)
    with Cons have "array_filter p ys = Inl TypeError" by auto
    with Inr show ?thesis by simp
  qed
qed

subsection \<open>The filter on searchable records\<close>

lemma fieldMatches_cases:
  "fieldMatches q x = (case x of Some (JStr v) \<Rightarrow> Inr (containsCI v q) | _ \<Rightarrow> Inl TypeError)"
proof (cases x)
  case None
  then show ?thesis by (simp add: fieldMatches_def)
next
  case (Some y)
  then show ?thesis
  proof (cases y)
    case JNull
    with Some show ?thesis by (simp add: fieldMatches_def)
  next
    case (JStr v)
    with Some show ?thesis by (simp add: fieldMatches_string)
  qed
qed

lemma rowMatches_searchable:
  assumes "searchable row"
  shows "rowMatches q row = Inr (matchesQuery q row)"
proof -
  let ?P = "\<lambda>x. case x of Some (JStr v) \<Rightarrow> containsCI v q | _ \<Rightarrow> False"
  let ?xs = "map row searchFields"
  have "\<forall>x \<in> set ?xs. fieldMatches q x = Inr (?P x)"
    using assms by (auto simp: searchable_def fieldMatches_cases)
  then have "array_some (fieldMatches q) ?xs = Inr (\<exists>x \<in> set ?xs. ?P x)"
    by (rule array_some_total)
  moreover have "(\<exists>x \<in> set ?xs. ?P x) \<longleftrightarrow> matchesQuery q row"
  proof
    assume "\<exists>x \<in> set ?xs. ?P x"
    then obtain f where f: "f \<in> set searchFields" "?P (row f)" by auto
    from assms f(1) obtain v where "row f = Some (JStr v)" by (auto simp: searchable_def)
    with f show "matchesQuery q row" by (auto simp: matchesQuery_def)
  next
    assume "matchesQuery q row"
    then obtain f v where f: "f \<in> set searchFields" and v: "row f = Some (JStr v)" "containsCI v q"
      by (auto simp: matchesQuery_def)
    from f have "row f \<in> set ?xs" by simp
    moreover from v have "?P (row f)" by simp
    ultimately show "\<exists>x \<in> set ?xs. ?P x" by blast
  qed
  ultimately show ?thesis
    by (simp add: rowMatches_def searchFields_def)
qed









lemma rowMatches_error: "rowMatches q row = Inl e \<Longrightarrow> e = TypeError"
  by (cases e) (auto simp: rowMatches_def fieldMatches_cases split: option.splits jsval.splits if_splits)

subsection \<open>When the filter throws\<close>

lemma length_toLowerCase: "length (toLowerCase s) = length s"
  by (simp add: toLowerCase_def)

lemma array_some_throws:
  assumes "x \<in> set xs" and "p x = Inl TypeError"
    and "\<forall>y \<in> set xs. p y = Inl TypeError \<or> p y = Inr False"
  shows "array_some p xs = Inl TypeError"
  using assms by (induction xs) auto

lemma longQuery_longer:
  assumes "f \<in> set searchFields" and "row f = Some (JStr v)"
  shows "length v < length (longQuery row)"
  using assms by (auto simp: longQuery_def searchFields_def)

lemma fieldMatches_longQuery:
  assumes "f \<in> set searchFields"
  shows "fieldMatches (longQuery row) (row f) = Inl TypeError \<or>
         fieldMatches (longQuery row) (row f) = Inr False"
proof (cases "\<exists>v. row f = Some (JStr v)")
  case True
  then obtain v where v: "row f = Some (JStr v)" by blast
  with assms have "length v < length (longQuery row)" by (rule longQuery_longer)
  then have "\<not> str_includes (toLowerCase v) (toLowerCase (longQuery row))"
    by (intro str_includes_longer) (simp add: length_toLowerCase)
  with v show ?thesis by (simp add: fieldMatches_def)
next
  case False
  then show ?thesis
    by (cases "row f") (auto simp: fieldMatches_cases split: jsval.splits)
qed

lemma rowMatches_longQuery:
  assumes "\<not> searchable row"
  shows "rowMatches (longQuery row) row = Inl TypeError"
proof -
  let ?xs = "map row searchFields"
  from assms obtain f where f: "f \<in> set searchFields" and "\<not> (\<exists>v. row f = Some (JStr v))"
    by (auto simp: searchable_def)
  then have throws: "fieldMatches (longQuery row) (row f) = Inl TypeError"
    by (cases "row f") (auto simp: fieldMatches_cases split: jsval.splits)
  from f have mem: "row f \<in> set ?xs" by simp
  have rest: "\<forall>y \<in> set ?xs. fieldMatches (longQuery row) y = Inl TypeError \<or>
      fieldMatches (longQuery row) y = Inr False"
    using fieldMatches_longQuery by auto
  have "array_some (fieldMatches (longQuery row)) ?xs = Inl TypeError"
    using mem throws rest by (rule array_some_throws)
  then show ?thesis by (simp add: rowMatches_def searchFields_def)
qed

text \<open>
  C9. The filter returns for every query exactly when every record of the list holds
  strings in all five search fields. A list with a record in which one of the five is
  missing or null has a query on which the filter throws a TypeError.
\<close>

theorem filteredStaff_total_iff:
  "(\<forall>q. \<exists>out. filteredStaff R q = Inr out) \<longleftrightarrow> (\<forall>row \<in> set R. searchable row)"
proof
  assume total: "\<forall>q. \<exists>out. filteredStaff R q = Inr out"
  show "\<forall>row \<in> set R. searchable row"
  proof (rule ccontr)
    assume "\<not> (\<forall>row \<in> set R. searchable row)"
    then obtain row where row: "row \<in> set R" "\<not> searchable row" by blast
    from row(2) have throws: "rowMatches (longQuery row) row = Inl TypeError"
      by (rule rowMatches_longQuery)
    have "array_filter (rowMatches (longQuery row)) R = Inl TypeError"
      using row(1) throws rowMatches_error
      by (rule array_filter_throws [where p = "rowMatches (longQuery row)"])
    then have "filteredStaff R (longQuery row) = Inl TypeError"
      by (simp add: filteredStaff_def)
    with total show False by (metis sum.distinct(1))
  qed
next
  assume ok: "\<forall>row \<in> set R. searchable row"
  have "array_filter (rowMatches q) R = Inr (filter (matchesQuery q) R)" for q
    by (rule array_filter_total) (use ok in \<open>simp add: rowMatches_searchable\<close>)
  then show "\<forall>q. \<exists>out. filteredStaff R q = Inr out"
    by (simp add: filteredStaff_def)
qed

theorem filteredStaff_total_iff_witness:
  "\<not> searchable (bob(''course'' := None)) \<and> \<not> searchable (bob(''lastName'' \<mapsto> JNull)) \<and>
   \<not> (\<forall>q. \<exists>out. filteredStaff [alice, bob(''course'' := None)] q = Inr out) \<and>
   \<not> (\<forall>q. \<exists>out. filteredStaff [bob(''lastName'' \<mapsto> JNull)] q = Inr out) \<and>
   (\<forall>q. \<exists>out. filteredStaff [alice, bob] q = Inr out)"
  using filteredStaff_total_iff [of "[alice, bob(''course'' := None)]"]
    filteredStaff_total_iff [of "[bob(''lastName'' \<mapsto> JNull)]"]
    filteredStaff_total_iff [of "[alice, bob]"]
  by (simp add: searchable_def searchFields_def alice_def bob_def aliceData_def bobData_def toRecord_def)

section \<open>Properties of the data loader\<close>

lemma getDocs_iff:
  "getDocs w p = (if rejects w (GetDocs p) then Inl FirestoreError else Inr (colls w p))"
  by (simp add: getDocs_def)

lemma fetchCourses_ok:
  assumes "\<forall>d \<in> set ds. \<not> rejects w (GetDocs (coursesPath d))"
  shows "fetchCourses w ds acc = (map coursesPath ds, Inr (loadedCourses w ds acc))"
  using assms by (induction ds arbitrary: acc) (simp_all add: loadedCourses_def getDocs_iff)

lemma fetchCourses_fail:
  assumes "\<exists>d \<in> set ds. rejects w (GetDocs (coursesPath d))"
  shows "\<exists>ps p e. fetchCourses w ds acc = (ps @ [p], Inl e) \<and> rejects w (GetDocs p) \<and>
           (\<forall>q \<in> set ps. \<not> rejects w (GetDocs q))"
  using assms
proof (induction ds arbitrary: acc)
  case Nil
  then show ?case by simp
next
  case (Cons d ds)
  show ?case
  proof (cases "rejects w (GetDocs (coursesPath d))")
    case True
    then have "fetchCourses w (d # ds) acc = ([] @ [coursesPath d], Inl FirestoreError)"
      by (simp add: getDocs_iff)
    with True show ?thesis by fastforce
  next
    case False
    with Cons.prems have "\<exists>d \<in> set ds. rejects w (GetDocs (coursesPath d))" by auto
    from Cons.IH [OF this] obtain ps p e where
      rec: "fetchCourses w ds (acc(toString (d ''id'') \<mapsto> map toRecord (colls w (coursesPath d))))
              = (ps @ [p], Inl e)"
      and p: "rejects w (GetDocs p)" "\<forall>q \<in> set ps. \<not> rejects w (GetDocs q)"
      by blast
    from False rec have "fetchCourses w (d # ds) acc = ((coursesPath d # ps) @ [p], Inl e)"
      by (simp add: getDocs_iff)
    with False p show ?thesis by fastforce
  qed
qed

lemma callsOf_append: "callsOf (xs @ ys) = callsOf xs @ callsOf ys"
  by (induction xs rule: callsOf.induct) simp_all

lemma callsOf_Calls: "callsOf (map (\<lambda>p. Call (f p)) ps) = map f ps"
  by (induction ps) simp_all

lemma notifications_append: "notifications (xs @ ys) = notifications xs @ notifications ys"
  by (induction xs rule: notifications.induct) simp_all

lemma notifications_Calls: "notifications (map (\<lambda>p. Call (f p)) ps) = []"
  by (induction ps) simp_all

text \<open>The four ways a load can run.\<close>

lemma fetchData_staff_fails:
  assumes "rejects w (GetDocs ''Staff'')"
  shows "fetchData w s =
    \<lparr>world_of = w, state_of = s, trace = Call (GetDocs ''Staff'') # fetchError,
     views = [s], thrown = None\<rparr>"
  using assms by (simp add: fetchData_def getDocs_iff)

lemma fetchData_departments_fail:
  assumes "\<not> rejects w (GetDocs ''Staff'')" and "rejects w (GetDocs ''Departments'')"
  shows "fetchData w s =
    \<lparr>world_of = w, state_of = s\<lparr>staff := loadedStaff w\<rparr>,
     trace = Call (GetDocs ''Staff'') # Call (GetDocs ''Departments'') # fetchError,
     views = [s, s\<lparr>staff := loadedStaff w\<rparr>], thrown = None\<rparr>"
  using assms by (simp add: fetchData_def getDocs_iff loadedStaff_def Let_def)

lemma fetchData_courses_fail:
  assumes "\<not> rejects w (GetDocs ''Staff'')" and "\<not> rejects w (GetDocs ''Departments'')"
    and "\<exists>d \<in> set (loadedDepartments w). rejects w (GetDocs (coursesPath d))"
  shows "\<exists>ps p. rejects w (GetDocs p) \<and> (\<forall>q \<in> set ps. \<not> rejects w (GetDocs q)) \<and>
    fetchData w s =
    \<lparr>world_of = w, state_of = s\<lparr>staff := loadedStaff w, departments := loadedDepartments w\<rparr>,
     trace = Call (GetDocs ''Staff'') # Call (GetDocs ''Departments'') #
       map (\<lambda>p. Call (GetDocs p)) (ps @ [p]) @ fetchError,
     views = s # s\<lparr>staff := loadedStaff w\<rparr> #
       map (\<lambda>p. s\<lparr>staff := loadedStaff w, departments := loadedDepartments w\<rparr>) (ps @ [p]),
     thrown = None\<rparr>"
proof -
  from fetchCourses_fail [OF assms(3), of Map.empty] obtain ps p e where
    "fetchCourses w (loadedDepartments w) Map.empty = (ps @ [p], Inl e)"
    and p: "rejects w (GetDocs p)" "\<forall>q \<in> set ps. \<not> rejects w (GetDocs q)"
    by blast
  with assms(1,2) have "fetchData w s =
    \<lparr>world_of = w, state_of = s\<lparr>staff := loadedStaff w, departments := loadedDepartments w\<rparr>,
     trace = Call (GetDocs ''Staff'') # Call (GetDocs ''Departments'') #
       map (\<lambda>p. Call (GetDocs p)) (ps @ [p]) @ fetchError,
     views = s # s\<lparr>staff := loadedStaff w\<rparr> #
       map (\<lambda>p. s\<lparr>staff := loadedStaff w, departments := loadedDepartments w\<rparr>) (ps @ [p]),
     thrown = None\<rparr>"
    by (simp add: fetchData_def getDocs_iff loadedStaff_def loadedDepartments_def Let_def)
  with p show ?thesis by blast
qed

lemma fetchData_ok:
  assumes "\<not> loadFails w"
  shows "fetchData w s =
    \<lparr>world_of = w,
     state_of = s\<lparr>staff := loadedStaff w, departments := loadedDepartments w,
       allCourses := loadedCourses w (loadedDepartments w) Map.empty\<rparr>,
     trace = Call (GetDocs ''Staff'') # Call (GetDocs ''Departments'') #
       map (\<lambda>p. Call (GetDocs p)) (map coursesPath (loadedDepartments w)),
     views = s # s\<lparr>staff := loadedStaff w\<rparr> #
       map (\<lambda>p. s\<lparr>staff := loadedStaff w, departments := loadedDepartments w\<rparr>)
         (map coursesPath (loadedDepartments w)),
     thrown = None\<rparr>"
proof -
  from assms have ok: "\<not> rejects w (GetDocs ''Staff'')" "\<not> rejects w (GetDocs ''Departments'')"
    "\<forall>d \<in> set (loadedDepartments w). \<not> rejects w (GetDocs (coursesPath d))"
    by (auto simp: loadFails_def)
  from fetchCourses_ok [OF ok(3), of Map.empty] ok(1,2) show ?thesis
    by (simp add: fetchData_def getDocs_iff loadedStaff_def loadedDepartments_def Let_def)
qed

subsection \<open>What a load leaves alone\<close>

lemma fetchData_shape:
  "\<exists>x y z ps tl.
     state_of (fetchData w s) = s\<lparr>staff := x, departments := y, allCourses := z\<rparr> \<and>
     trace (fetchData w s) = Call (GetDocs ''Staff'') # map (\<lambda>p. Call (GetDocs p)) ps @ tl \<and>
     (tl = [] \<or> tl = fetchError) \<and> world_of (fetchData w s) = w \<and>
     thrown (fetchData w s) = None"
proof -
  consider
    (staff) "rejects w (GetDocs ''Staff'')"
  | (depts) "\<not> rejects w (GetDocs ''Staff'')" "rejects w (GetDocs ''Departments'')"
  | (courses) "\<not> rejects w (GetDocs ''Staff'')" "\<not> rejects w (GetDocs ''Departments'')"
      "\<exists>d \<in> set (loadedDepartments w). rejects w (GetDocs (coursesPath d))"
  | (ok) "\<not> loadFails w"
    by (auto simp: loadFails_def)
  then show ?thesis
  proof cases
    case staff
    have "state_of (fetchData w s) =
        s\<lparr>staff := staff s, departments := departments s, allCourses := allCourses s\<rparr>"
      by (simp add: fetchData_staff_fails [OF staff])
    moreover have "trace (fetchData w s) =
        Call (GetDocs ''Staff'') # map (\<lambda>p. Call (GetDocs p)) [] @ fetchError"
      by (simp add: fetchData_staff_fails [OF staff])
    ultimately show ?thesis
      using fetchData_staff_fails [OF staff, of s] by (metis outcome.select_convs(1,5))
  next
    case depts
    have "state_of (fetchData w s) =
        s\<lparr>staff := loadedStaff w, departments := departments s, allCourses := allCourses s\<rparr>"
      by (simp add: fetchData_departments_fail [OF depts])
    moreover have "trace (fetchData w s) =
        Call (GetDocs ''Staff'') # map (\<lambda>p. Call (GetDocs p)) [''Departments''] @ fetchError"
      by (simp add: fetchData_departments_fail [OF depts])
    ultimately show ?thesis
      using fetchData_departments_fail [OF depts, of s] by (metis outcome.select_convs(1,5))
  next
    case courses
    from fetchData_courses_fail [OF courses, of s] obtain ps p where
      run: "fetchData w s =
        \<lparr>world_of = w, state_of = s\<lparr>staff := loadedStaff w, departments := loadedDepartments w\<rparr>,
         trace = Call (GetDocs ''Staff'') # Call (GetDocs ''Departments'') #
           map (\<lambda>p. Call (GetDocs p)) (ps @ [p]) @ fetchError,
         views = s # s\<lparr>staff := loadedStaff w\<rparr> #
           map (\<lambda>p. s\<lparr>staff := loadedStaff w, departments := loadedDepartments w\<rparr>) (ps @ [p]),
         thrown = None\<rparr>"
      by blast
    have "state_of (fetchData w s) =
        s\<lparr>staff := loadedStaff w, departments := loadedDepartments w, allCourses := allCourses s\<rparr>"
      by (simp add: run)
    moreover have "trace (fetchData w s) =
        Call (GetDocs ''Staff'') # map (\<lambda>p. Call (GetDocs p)) (''Departments'' # ps @ [p]) @ fetchError"
      by (simp add: run)
    ultimately show ?thesis
      using run by (metis outcome.select_convs(1,5))
  next
    case ok
    have "trace (fetchData w s) =
        Call (GetDocs ''Staff'') #
        map (\<lambda>p. Call (GetDocs p)) (''Departments'' # map coursesPath (loadedDepartments w)) @ []"
      by (simp add: fetchData_ok [OF ok])
    moreover have "state_of (fetchData w s) =
        s\<lparr>staff := loadedStaff w, departments := loadedDepartments w,
          allCourses := loadedCourses w (loadedDepartments w) Map.empty\<rparr>"
      by (simp add: fetchData_ok [OF ok])
    ultimately show ?thesis
      using fetchData_ok [OF ok, of s] by (metis outcome.select_convs(1,5))
  qed
qed

lemma fetchData_frame:
  "formData (state_of (fetchData w s)) = formData s \<and>
   selectedStaff (state_of (fetchData w s)) = selectedStaff s \<and>
   searchQuery (state_of (fetchData w s)) = searchQuery s \<and>
   world_of (fetchData w s) = w"
  using fetchData_shape [of w s] by auto

lemma fetchData_calls:
  "hd (callsOf (trace (fetchData w s))) = GetDocs ''Staff'' \<and>
   (\<forall>rq \<in> set (callsOf (trace (fetchData w s))). payload rq = None)"
proof -
  from fetchData_shape [of w s] obtain ps tl where
    tr: "trace (fetchData w s) = Call (GetDocs ''Staff'') # map (\<lambda>p. Call (GetDocs p)) ps @ tl"
    and tl: "tl = [] \<or> tl = fetchError"
    by blast
  from tl have "callsOf tl = []" by (auto simp: fetchError_def)
  then have "callsOf (trace (fetchData w s)) = GetDocs ''Staff'' # map GetDocs ps"
    using callsOf_Calls [of GetDocs ps] by (simp add: tr callsOf_append)
  then show ?thesis by auto
qed

lemma fetchData_staff:
  "\<not> rejects w (GetDocs ''Staff'') \<Longrightarrow> staff (state_of (fetchData w s)) = loadedStaff w"
  by (auto simp: fetchData_def getDocs_iff Let_def loadedStaff_def split: sum.splits prod.splits)

subsection \<open>A load that fails\<close>

lemma notifications_fetchError:
  "notifications fetchError = [Notify ''Error!'' ''There was an error fetching the data.'' ''error'']"
  by (simp add: fetchError_def)

lemma callsOf_fetchError: "callsOf fetchError = []"
  by (simp add: fetchError_def)

text \<open>
  C2, as amended. When a retrieval of a load fails, the retrievals after it are not made
  (the rejected call is the last call to the store), exactly one error notification is
  shown, and the courses mapping is left as it was. The staff list is left as it was only
  if the retrieval of Staff is the one that failed, and the departments list only if that
  of Staff or of Departments failed: a list retrieved before the failure has already
  replaced the cached one.
\<close>

theorem fetchData_failure:
  assumes "loadFails w"
  shows "notifications (trace (fetchData w s)) =
           [Notify ''Error!'' ''There was an error fetching the data.'' ''error''] \<and>
         (\<exists>cs c. callsOf (trace (fetchData w s)) = cs @ [c] \<and> rejects w c \<and>
            (\<forall>c' \<in> set cs. \<not> rejects w c')) \<and>
         allCourses (state_of (fetchData w s)) = allCourses s \<and>
         staff (state_of (fetchData w s)) =
           (if rejects w (GetDocs ''Staff'') then staff s else loadedStaff w) \<and>
         departments (state_of (fetchData w s)) =
           (if rejects w (GetDocs ''Staff'') \<or> rejects w (GetDocs ''Departments'')
            then departments s else loadedDepartments w)"
proof -
  consider
    (staff) "rejects w (GetDocs ''Staff'')"
  | (depts) "\<not> rejects w (GetDocs ''Staff'')" "rejects w (GetDocs ''Departments'')"
  | (courses) "\<not> rejects w (GetDocs ''Staff'')" "\<not> rejects w (GetDocs ''Departments'')"
      "\<exists>d \<in> set (loadedDepartments w). rejects w (GetDocs (coursesPath d))"
    using assms by (auto simp: loadFails_def)
  then show ?thesis
  proof cases
    case staff
    have "callsOf (trace (fetchData w s)) = [] @ [GetDocs ''Staff'']"
      by (simp add: fetchData_staff_fails [OF staff] callsOf_fetchError)
    with staff show ?thesis
      by (simp add: fetchData_staff_fails [OF staff] notifications_fetchError)
  next
    case depts
    have "callsOf (trace (fetchData w s)) = [GetDocs ''Staff''] @ [GetDocs ''Departments'']"
      by (simp add: fetchData_departments_fail [OF depts] callsOf_fetchError)
    moreover have "\<forall>c' \<in> set [GetDocs ''Staff'']. \<not> rejects w c'"
      using depts by simp
    ultimately have "\<exists>cs c. callsOf (trace (fetchData w s)) = cs @ [c] \<and> rejects w c \<and>
            (\<forall>c' \<in> set cs. \<not> rejects w c')"
      using depts(2) by blast
    with depts show ?thesis
      by (simp add: fetchData_departments_fail [OF depts] notifications_fetchError)
  next
    case courses
    from fetchData_courses_fail [OF courses, of s] obtain ps p where
      p: "rejects w (GetDocs p)" "\<forall>q \<in> set ps. \<not> rejects w (GetDocs q)"
      and run: "fetchData w s =
        \<lparr>world_of = w, state_of = s\<lparr>staff := loadedStaff w, departments := loadedDepartments w\<rparr>,
         trace = Call (GetDocs ''Staff'') # Call (GetDocs ''Departments'') #
           map (\<lambda>p. Call (GetDocs p)) (ps @ [p]) @ fetchError,
         views = s # s\<lparr>staff := loadedStaff w\<rparr> #
           map (\<lambda>p. s\<lparr>staff := loadedStaff w, departments := loadedDepartments w\<rparr>) (ps @ [p]),
         thrown = None\<rparr>"
      by blast
    have "callsOf (trace (fetchData w s)) =
        (GetDocs ''Staff'' # GetDocs ''Departments'' # map GetDocs ps) @ [GetDocs p]"
      using callsOf_Calls [of GetDocs "ps @ [p]"]
      by (simp add: run callsOf_append callsOf_fetchError)
    moreover have "\<forall>c' \<in> set (GetDocs ''Staff'' # GetDocs ''Departments'' # map GetDocs ps).
        \<not> rejects w c'"
      using courses(1,2) p(2) by auto
    ultimately have "\<exists>cs c. callsOf (trace (fetchData w s)) = cs @ [c] \<and> rejects w c \<and>
            (\<forall>c' \<in> set cs. \<not> rejects w c')"
      using p(1) by blast
    moreover have "notifications (trace (fetchData w s)) =
           [Notify ''Error!'' ''There was an error fetching the data.'' ''error'']"
      using notifications_Calls [of GetDocs "ps @ [p]"]
      by (simp add: run notifications_append notifications_fetchError)
    ultimately show ?thesis
      using courses(1,2) by (simp add: run)
  qed
qed

lemma loadFails_deptDown: "loadFails deptDown"
  by (simp add: loadFails_def deptDown_def)

lemma loadFails_emptyStore: "\<not> loadFails emptyStore"
  by (simp add: loadFails_def emptyStore_def loadedDepartments_def)

lemma loadFails_online: "\<not> loadFails online"
  by (simp add: loadFails_def online_def)

lemma loadedStaff_online: "loadedStaff online = [alice]"
  by (simp add: loadedStaff_def online_def sampleColls_def alice_def)

lemma loadedStaff_deptDown: "loadedStaff deptDown = [alice]"
  by (simp add: loadedStaff_def deptDown_def sampleColls_def alice_def)

theorem fetchData_failure_witness:
  "loadFails deptDown \<and>
   notifications (trace (fetchData deptDown initialState)) =
     [Notify ''Error!'' ''There was an error fetching the data.'' ''error''] \<and>
   allCourses (state_of (fetchData deptDown initialState)) = Map.empty \<and>
   staff (state_of (fetchData deptDown initialState)) = [alice] \<and>
   departments (state_of (fetchData deptDown initialState)) = []"
  using fetchData_failure [OF loadFails_deptDown, of initialState] loadFails_deptDown
  by (simp add: loadedStaff_deptDown) (simp add: deptDown_def initialState_def)

text \<open>
  C2 as stated fails: after a load from the empty store, a load in which the read of
  Departments is rejected replaces the cached staff list.
\<close>

theorem fetchData_overwrites_staff:
  "\<not> loadFails emptyStore \<and> loadFails deptDown \<and>
   staff (state_of (fetchData deptDown (state_of (fetchData emptyStore initialState)))) \<noteq>
   staff (state_of (fetchData emptyStore initialState))"
proof -
  have "staff (state_of (fetchData emptyStore initialState)) = loadedStaff emptyStore"
    by (simp add: fetchData_ok [OF loadFails_emptyStore])
  moreover have "loadedStaff emptyStore = []"
    by (simp add: loadedStaff_def emptyStore_def)
  moreover have "staff (state_of (fetchData deptDown s)) = [alice]" for s
    by (simp add: fetchData_def getDocs_iff deptDown_def sampleColls_def alice_def Let_def)
  ultimately show ?thesis
    by (simp add: loadFails_deptDown loadFails_emptyStore)
qed

subsection \<open>A load that succeeds\<close>

text \<open>
  C6, as amended. A successful load replaces the three pieces one after the other, each
  in one step: the page shows the old state while Staff is read, the new staff list with
  the old departments and courses while Departments is read, the new staff list and
  departments with the old courses mapping during each read of courses, and the three new
  pieces at the end. The courses mapping is never shown partly filled, and no
  notification is shown.
\<close>

theorem fetchData_success:
  assumes "\<not> loadFails w"
  shows "views (fetchData w s) =
           s # s\<lparr>staff := loadedStaff w\<rparr> #
           replicate (length (loadedDepartments w))
             (s\<lparr>staff := loadedStaff w, departments := loadedDepartments w\<rparr>) \<and>
         state_of (fetchData w s) =
           s\<lparr>staff := loadedStaff w, departments := loadedDepartments w,
             allCourses := loadedCourses w (loadedDepartments w) Map.empty\<rparr> \<and>
         notifications (trace (fetchData w s)) = []"
proof -
  have "map (\<lambda>p. x) (map coursesPath ds) = replicate (length ds) x" for x :: state and ds
    by (induction ds) simp_all
  moreover have "notifications (map (\<lambda>p. Call (GetDocs p)) (map coursesPath ds)) = []" for ds
    by (rule notifications_Calls)
  ultimately show ?thesis
    by (simp add: fetchData_ok [OF assms] del: map_map)
qed

lemma loadedDepartments_online:
  "loadedDepartments online =
     [toRecord (''Board Courses'', Map.empty), toRecord (''Non-Board Courses'', Map.empty)]"
  by (simp add: loadedDepartments_def online_def sampleColls_def)

theorem fetchData_success_witness:
  "\<not> loadFails online \<and>
   views (fetchData online initialState) =
     [initialState, initialState\<lparr>staff := [alice]\<rparr>,
      initialState\<lparr>staff := [alice], departments := loadedDepartments online\<rparr>,
      initialState\<lparr>staff := [alice], departments := loadedDepartments online\<rparr>] \<and>
   staff (state_of (fetchData online initialState)) = [alice] \<and>
   departments (state_of (fetchData online initialState)) = loadedDepartments online"
  using fetchData_success [OF loadFails_online, of initialState] loadFails_online
  by (simp add: loadedStaff_online loadedDepartments_online)

text \<open>
  C6 as stated fails: in a successful load, the state shown while Departments is read has
  the new staff list and the old departments list.
\<close>

theorem fetchData_mixed_view:
  "\<not> loadFails online \<and>
   staff (views (fetchData online initialState) ! 1) = staff (state_of (fetchData online initialState)) \<and>
   staff (views (fetchData online initialState) ! 1) \<noteq> staff initialState \<and>
   departments (views (fetchData online initialState) ! 1) = departments initialState \<and>
   departments (views (fetchData online initialState) ! 1) \<noteq>
     departments (state_of (fetchData online initialState))"
  by (simp add: loadFails_online fetchData_ok [OF loadFails_online] loadedStaff_online
      loadedDepartments_online initialState_def)

section \<open>Properties of the handlers\<close>

subsection \<open>Saving\<close>

lemma handleSubmit_ok:
  assumes "saveRequest s = Inr rq" and "send w rq = Inr w'"
  shows "handleSubmit w s =
    \<lparr>world_of = w', state_of = state_of (fetchData w' (resetForm s)),
     trace = Call rq # saveSuccess s # trace (fetchData w' (resetForm s)),
     views = s # views (fetchData w' (resetForm s)), thrown = None\<rparr>"
  using assms by (simp add: handleSubmit_def Let_def)

lemma handleSubmit_rejected:
  assumes "saveRequest s = Inr rq" and "send w rq = Inl e"
  shows "handleSubmit w s =
    \<lparr>world_of = w, state_of = s, trace = Call rq # saveError, views = [s], thrown = None\<rparr>"
  using assms by (simp add: handleSubmit_def)

lemma handleSubmit_thrown:
  assumes "saveRequest s = Inl e"
  shows "handleSubmit w s =
    \<lparr>world_of = w, state_of = s, trace = [], views = [], thrown = Some e\<rparr>"
  using assms by (simp add: handleSubmit_def)

lemma saveRequest_create:
  "selectedStaff s = None \<Longrightarrow> saveRequest s = Inr (AddDoc ''Staff'' (formData s))"
  by (simp add: saveRequest_def)

lemma saveRequest_update:
  assumes "selectedStaff s = Some target" and "target ''id'' = Some (JStr i)"
    and "i \<noteq> []" and "CHR ''/'' \<notin> set i"
  shows "saveRequest s = Inr (UpdateDoc (''Staff'', i) (formData s))"
  using assms by (simp add: saveRequest_def doc_def)

lemma send_frame:
  assumes "send w rq = Inr w'"
  shows "rejects w' = rejects w \<and> autoId w' = autoId w"
  using assms
  by (cases rq) (auto simp: getDocs_iff addDoc_def updateDoc_def deleteDoc_def split: if_splits)

lemma handleSubmit_other_collections:
  assumes "path \<noteq> ''Staff''"
  shows "colls (world_of (handleSubmit w s)) path = colls w path"
proof (cases "saveRequest s")
  case (Inl e)
  then show ?thesis by (simp add: handleSubmit_thrown)
next
  case (Inr rq)
  then have rq: "rq = AddDoc ''Staff'' (formData s) \<or> (\<exists>i. rq = UpdateDoc (''Staff'', i) (formData s))"
    by (auto simp: saveRequest_def doc_def split: option.splits sum.splits jsval.splits if_splits)
  show ?thesis
  proof (cases "send w rq")
    case (Inl e)
    with Inr show ?thesis by (simp add: handleSubmit_rejected)
  next
    case (Inr w')
    with rq assms have "colls w' path = colls w path"
      by (auto simp: addDoc_def updateDoc_def split: if_splits)
    with \<open>saveRequest s = Inr rq\<close> Inr show ?thesis by (simp add: handleSubmit_ok)
  qed
qed

text \<open>
  C3. A save with no editing target sends one create call for the collection Staff with
  exactly the field map of the form; when the store accepts it, Staff gains one document
  with these field values under the identifier the store assigns, and a reload that can
  read Staff shows the former records and the new one. A save with an editing target
  sends an update call for the document named by the identifier of the target; when the
  store accepts it, the fields of the form overwrite those of that document, and the
  identifiers of the collection are unchanged. No other collection changes.
\<close>

theorem handleSubmit_saves:
  "(selectedStaff s = None \<and> \<not> rejects w (AddDoc ''Staff'' (formData s)) \<longrightarrow>
      hd (callsOf (trace (handleSubmit w s))) = AddDoc ''Staff'' (formData s) \<and>
      colls (world_of (handleSubmit w s)) ''Staff'' =
        colls w ''Staff'' @ [(autoId w (colls w ''Staff''), formData s)] \<and>
      (\<not> rejects w (GetDocs ''Staff'') \<longrightarrow>
        staff (state_of (handleSubmit w s)) =
          loadedStaff w @ [toRecord (autoId w (colls w ''Staff''), formData s)])) \<and>
   (selectedStaff s = Some target \<and> target ''id'' = Some (JStr i) \<and> i \<noteq> [] \<and>
    CHR ''/'' \<notin> set i \<and> i \<in> fst ` set (colls w ''Staff'') \<and>
    \<not> rejects w (UpdateDoc (''Staff'', i) (formData s)) \<longrightarrow>
      hd (callsOf (trace (handleSubmit w s))) = UpdateDoc (''Staff'', i) (formData s) \<and>
      colls (world_of (handleSubmit w s)) ''Staff'' =
        map (\<lambda>d. if fst d = i then (i, snd d ++ formData s) else d) (colls w ''Staff'') \<and>
      map fst (colls (world_of (handleSubmit w s)) ''Staff'') = map fst (colls w ''Staff'')) \<and>
   (\<forall>path. path \<noteq> ''Staff'' \<longrightarrow> colls (world_of (handleSubmit w s)) path = colls w path)"
proof (intro conjI impI allI)
  let ?new = "(autoId w (colls w ''Staff''), formData s)"
  let ?w' = "w\<lparr>colls := (colls w)(''Staff'' := colls w ''Staff'' @ [?new])\<rparr>"
  assume create: "selectedStaff s = None \<and> \<not> rejects w (AddDoc ''Staff'' (formData s))"
  then have rq: "saveRequest s = Inr (AddDoc ''Staff'' (formData s))"
    by (simp add: saveRequest_create)
  from create have sent: "send w (AddDoc ''Staff'' (formData s)) = Inr ?w'"
    by (simp add: addDoc_def)
  note run = handleSubmit_ok [OF rq sent]
  show "hd (callsOf (trace (handleSubmit w s))) = AddDoc ''Staff'' (formData s)"
    by (simp add: run)
  show "colls (world_of (handleSubmit w s)) ''Staff'' = colls w ''Staff'' @ [?new]"
    by (simp add: run)
  assume "\<not> rejects w (GetDocs ''Staff'')"
  then have "\<not> rejects ?w' (GetDocs ''Staff'')" by simp
  then have "staff (state_of (fetchData ?w' (resetForm s))) = loadedStaff ?w'"
    by (rule fetchData_staff)
  then show "staff (state_of (handleSubmit w s)) = loadedStaff w @ [toRecord ?new]"
    by (simp add: run loadedStaff_def)
next
  let ?upd = "map (\<lambda>d. if fst d = i then (i, snd d ++ formData s) else d) (colls w ''Staff'')"
  let ?w' = "w\<lparr>colls := (colls w)(''Staff'' := ?upd)\<rparr>"
  assume update: "selectedStaff s = Some target \<and> target ''id'' = Some (JStr i) \<and> i \<noteq> [] \<and>
    CHR ''/'' \<notin> set i \<and> i \<in> fst ` set (colls w ''Staff'') \<and>
    \<not> rejects w (UpdateDoc (''Staff'', i) (formData s))"
  then have rq: "saveRequest s = Inr (UpdateDoc (''Staff'', i) (formData s))"
    by (simp add: saveRequest_update)
  have same: "(\<lambda>d. if fst d = i then (fst d, snd d ++ formData s) else d) =
      (\<lambda>d. if fst d = i then (i, snd d ++ formData s) else d)"
    by auto
  from update have sent: "send w (UpdateDoc (''Staff'', i) (formData s)) = Inr ?w'"
    by (simp add: updateDoc_def same)
  note run = handleSubmit_ok [OF rq sent]
  show "hd (callsOf (trace (handleSubmit w s))) = UpdateDoc (''Staff'', i) (formData s)"
    by (simp add: run)
  show "colls (world_of (handleSubmit w s)) ''Staff'' = ?upd"
    by (simp add: run)
  have "map fst ?upd = map fst (colls w ''Staff'')"
    by (induction "colls w ''Staff''") auto
  then show "map fst (colls (world_of (handleSubmit w s)) ''Staff'') = map fst (colls w ''Staff'')"
    by (simp add: run)
next
  fix path :: string
  assume "path \<noteq> ''Staff''"
  then show "colls (world_of (handleSubmit w s)) path = colls w path"
    by (rule handleSubmit_other_collections)
qed

lemma loaded_eq:
  "loaded = initialState\<lparr>staff := loadedStaff online, departments := loadedDepartments online,
     allCourses := loadedCourses online (loadedDepartments online) Map.empty\<rparr>"
proof -
  have "\<not> loadFails online" by (simp add: loadFails_def online_def)
  then show ?thesis by (simp add: loaded_def fetchData_ok)
qed

lemma bobForm_eq: "formData bobForm = bobData \<and> selectedStaff bobForm = None \<and>
  departments bobForm = loadedDepartments online"
  by (auto simp: bobForm_def applyChanges_def bobEdits_def handleChange_def loaded_eq
      initialState_def emptyForm_def bobData_def)

lemma aliceEdit_eq: "formData aliceEdit = alice(''address'' \<mapsto> JStr ''Davao'') \<and>
  selectedStaff aliceEdit = Some alice"
  by (simp add: aliceEdit_def handleChange_def handleEdit_def)

lemma alice_id: "alice ''id'' = Some (JStr ''s1'')"
  by (simp add: alice_def toRecord_def aliceData_def)

lemma online_simps: "colls online ''Staff'' = [(''s1'', aliceData)] \<and> rejects online rq = False \<and>
  autoId online docs = ''s2''"
  by (simp add: online_def sampleColls_def)

theorem handleSubmit_saves_witness:
  "colls (world_of (handleSubmit online bobForm)) ''Staff'' = [(''s1'', aliceData), (''s2'', bobData)] \<and>
   staff (state_of (handleSubmit online bobForm)) = [alice, bob] \<and>
   colls (world_of (handleSubmit online aliceEdit)) ''Staff'' =
     [(''s1'', aliceData ++ alice(''address'' \<mapsto> JStr ''Davao''))] \<and>
   map fst (colls (world_of (handleSubmit online aliceEdit)) ''Staff'') = [''s1''] \<and>
   colls (world_of (handleSubmit online aliceEdit)) ''Departments'' = colls online ''Departments''"
  using handleSubmit_saves [of bobForm online undefined undefined]
    handleSubmit_saves [of aliceEdit online alice "''s1''"]
  by (simp add: bobForm_eq aliceEdit_eq alice_id online_simps loadedStaff_online bob_def)

text \<open>
  The two branches of the \<^verbatim>\<open>try\<close> block of a save, which is entered once the request is
  made. When the call succeeds, the user is shown a success notification that says
  "added" for a create and "updated" for an update, the load runs (its first read is
  Staff), and the state left is that of the load started from the reset form: the form
  buffer is the empty form and the editing target is cleared. When the call is rejected,
  the user is shown the error notification, nothing is reloaded, and the state, with the
  form buffer and the editing target, is as before.
\<close>

lemma handleSubmit_outcome:
  "(saveRequest s = Inr rq \<and> send w rq = Inr w' \<longrightarrow>
      trace (handleSubmit w s) =
        Call rq #
        Notify ''Success!''
          (if selectedStaff s = None then ''Staff has been added.'' else ''Staff has been updated.'')
          ''success'' #
        trace (fetchData w' (resetForm s)) \<and>
      hd (callsOf (trace (fetchData w' (resetForm s)))) = GetDocs ''Staff'' \<and>
      state_of (handleSubmit w s) = state_of (fetchData w' (resetForm s)) \<and>
      formData (state_of (handleSubmit w s)) = emptyForm \<and>
      selectedStaff (state_of (handleSubmit w s)) = None) \<and>
   (saveRequest s = Inr rq \<and> send w rq = Inl e \<longrightarrow>
      trace (handleSubmit w s) =
        [Call rq, ConsoleError ''Error saving staff data: '',
         Notify ''Error!'' ''There was an error saving the staff data.'' ''error''] \<and>
      state_of (handleSubmit w s) = s \<and> world_of (handleSubmit w s) = w)"
proof (intro conjI impI)
  assume ok: "saveRequest s = Inr rq \<and> send w rq = Inr w'"
  then have run: "handleSubmit w s =
    \<lparr>world_of = w', state_of = state_of (fetchData w' (resetForm s)),
     trace = Call rq # saveSuccess s # trace (fetchData w' (resetForm s)),
     views = s # views (fetchData w' (resetForm s)), thrown = None\<rparr>"
    by (simp add: handleSubmit_ok)
  show "trace (handleSubmit w s) =
        Call rq #
        Notify ''Success!''
          (if selectedStaff s = None then ''Staff has been added.'' else ''Staff has been updated.'')
          ''success'' #
        trace (fetchData w' (resetForm s))"
    by (simp add: run saveSuccess_def)
  show "hd (callsOf (trace (fetchData w' (resetForm s)))) = GetDocs ''Staff''"
    by (simp add: fetchData_calls)
  show "state_of (handleSubmit w s) = state_of (fetchData w' (resetForm s))"
    by (simp add: run)
  show "formData (state_of (handleSubmit w s)) = emptyForm"
    by (simp add: run fetchData_frame resetForm_def)
  show "selectedStaff (state_of (handleSubmit w s)) = None"
    by (simp add: run fetchData_frame resetForm_def)
next
  assume bad: "saveRequest s = Inr rq \<and> send w rq = Inl e"
  then have run: "handleSubmit w s =
    \<lparr>world_of = w, state_of = s, trace = Call rq # saveError, views = [s], thrown = None\<rparr>"
    by (simp add: handleSubmit_rejected)
  show "trace (handleSubmit w s) =
        [Call rq, ConsoleError ''Error saving staff data: '',
         Notify ''Error!'' ''There was an error saving the staff data.'' ''error'']"
    by (simp add: run saveError_def)
  show "state_of (handleSubmit w s) = s" by (simp add: run)
  show "world_of (handleSubmit w s) = w" by (simp add: run)
qed

lemma saveRequest_bobForm: "saveRequest bobForm = Inr (AddDoc ''Staff'' bobData)"
  by (simp add: saveRequest_def bobForm_eq)

lemma saveRequest_aliceEdit:
  "saveRequest aliceEdit = Inr (UpdateDoc (''Staff'', ''s1'') (alice(''address'' \<mapsto> JStr ''Davao'')))"
  by (simp add: saveRequest_def aliceEdit_eq alice_id doc_def)

lemma handleSubmit_outcome_witness:
  "notifications (trace (handleSubmit online bobForm)) ! 0 =
     Notify ''Success!'' ''Staff has been added.'' ''success'' \<and>
   notifications (trace (handleSubmit online aliceEdit)) ! 0 =
     Notify ''Success!'' ''Staff has been updated.'' ''success'' \<and>
   formData (state_of (handleSubmit online aliceEdit)) = emptyForm \<and>
   selectedStaff (state_of (handleSubmit online aliceEdit)) = None \<and>
   notifications (trace (handleSubmit readOnly aliceEdit)) =
     [Notify ''Error!'' ''There was an error saving the staff data.'' ''error''] \<and>
   state_of (handleSubmit readOnly aliceEdit) = aliceEdit"
proof -
  have add: "addDoc online ''Staff'' bobData =
      Inr (online\<lparr>colls := (colls online)(''Staff'' := colls online ''Staff'' @ [(''s2'', bobData)])\<rparr>)"
    by (simp add: addDoc_def online_simps)
  have upd: "updateDoc online (''Staff'', ''s1'') (alice(''address'' \<mapsto> JStr ''Davao'')) =
      Inr (online\<lparr>colls := (colls online)(''Staff'' :=
        [(''s1'', aliceData ++ alice(''address'' \<mapsto> JStr ''Davao''))])\<rparr>)"
    by (simp add: updateDoc_def online_simps)
  have ro: "updateDoc readOnly (''Staff'', ''s1'') (alice(''address'' \<mapsto> JStr ''Davao'')) =
      Inl FirestoreError"
    by (simp add: updateDoc_def readOnly_def)
  show ?thesis
    using handleSubmit_outcome [of bobForm "AddDoc ''Staff'' bobData" online
        "online\<lparr>colls := (colls online)(''Staff'' := colls online ''Staff'' @ [(''s2'', bobData)])\<rparr>"]
      handleSubmit_outcome [of aliceEdit
        "UpdateDoc (''Staff'', ''s1'') (alice(''address'' \<mapsto> JStr ''Davao''))" online
        "online\<lparr>colls := (colls online)(''Staff'' :=
          [(''s1'', aliceData ++ alice(''address'' \<mapsto> JStr ''Davao''))])\<rparr>"]
      handleSubmit_outcome [of aliceEdit
        "UpdateDoc (''Staff'', ''s1'') (alice(''address'' \<mapsto> JStr ''Davao''))" readOnly
        _ FirestoreError]
    by (simp add: saveRequest_bobForm saveRequest_aliceEdit add upd ro bobForm_eq aliceEdit_eq
        fetchData_frame resetForm_def)
qed

text \<open>The case outside both branches: the reference of the target is made on line 50,
  before the \<^verbatim>\<open>try\<close> block that starts on line 51. A target whose \<open>id\<close> is not the
  identifier of a document makes \<open>doc\<close> throw there; nothing is called and nothing is
  shown. A row made of a document that has no \<open>id\<close> field of its own never does.\<close>

lemma handleSubmit_uncaught:
  assumes "selectedStaff s = Some target" and "target ''id'' = Some JNull \<or> target ''id'' = None"
  shows "thrown (handleSubmit w s) = Some TypeError \<and> trace (handleSubmit w s) = [] \<and>
         state_of (handleSubmit w s) = s"
  using assms by (auto simp: handleSubmit_def saveRequest_def doc_def)

lemma saveRequest_of_row:
  assumes "selectedStaff s = Some (toRecord d)" and "snd d ''id'' = None"
    and "fst d \<noteq> []" and "CHR ''/'' \<notin> set (fst d)"
  shows "saveRequest s = Inr (UpdateDoc (''Staff'', fst d) (formData s))"
proof -
  from assms(2) have "toRecord d ''id'' = Some (JStr (fst d))"
    by (simp add: toRecord_def map_add_def)
  with assms(1) show ?thesis using assms(3,4) by (rule saveRequest_update)
qed

subsection \<open>Deleting\<close>

lemma notifications_deleteError:
  "notifications deleteError =
     [Notify ''Error!'' ''There was an error deleting the staff member.'' ''error''] \<and>
   callsOf deleteError = []"
  by (simp add: deleteError_def)

text \<open>
  C4. A delete starts with the confirmation prompt. If the user declines, nothing else
  happens: no call to the store, no notification, the state and the store as before. If
  the user confirms and the store accepts the delete, the document with the identifier of
  the row is removed from Staff, the success notification is shown, and the load runs
  (its first read is Staff). If the user confirms and the store refuses the delete, the
  error notification is shown, nothing is reloaded, and the state and the store are as
  before.
\<close>

theorem handleDelete_outcome:
  "hd (trace (handleDelete w s row answer)) = deletePrompt \<and>
   (\<not> answer \<longrightarrow>
      handleDelete w s row answer =
        \<lparr>world_of = w, state_of = s, trace = [deletePrompt], views = [s], thrown = None\<rparr> \<and>
      callsOf (trace (handleDelete w s row answer)) = [] \<and>
      notifications (trace (handleDelete w s row answer)) = []) \<and>
   (answer \<and> doc ''Staff'' (row ''id'') = Inr ref \<and> deleteDoc w ref = Inr w' \<longrightarrow>
      colls w' (fst ref) = filter (\<lambda>d. fst d \<noteq> snd ref) (colls w (fst ref)) \<and>
      world_of (handleDelete w s row answer) = w' \<and>
      trace (handleDelete w s row answer) =
        deletePrompt # Call (DeleteDoc ref) #
        Notify ''Deleted!'' ''Staff member has been deleted.'' ''success'' #
        trace (fetchData w' s) \<and>
      hd (callsOf (trace (fetchData w' s))) = GetDocs ''Staff'' \<and>
      state_of (handleDelete w s row answer) = state_of (fetchData w' s)) \<and>
   (answer \<and> doc ''Staff'' (row ''id'') = Inr ref \<and> deleteDoc w ref = Inl e \<longrightarrow>
      trace (handleDelete w s row answer) =
        [deletePrompt, Call (DeleteDoc ref), ConsoleError ''Error deleting staff member: '',
         Notify ''Error!'' ''There was an error deleting the staff member.'' ''error''] \<and>
      state_of (handleDelete w s row answer) = s \<and>
      world_of (handleDelete w s row answer) = w)"
proof (intro conjI impI)
  show "hd (trace (handleDelete w s row answer)) = deletePrompt"
    by (simp add: handleDelete_def Let_def split: sum.splits)
next
  assume no: "\<not> answer"
  then show "handleDelete w s row answer =
      \<lparr>world_of = w, state_of = s, trace = [deletePrompt], views = [s], thrown = None\<rparr>"
    by (simp add: handleDelete_def)
  from no show "callsOf (trace (handleDelete w s row answer)) = []"
    by (simp add: handleDelete_def deletePrompt_def)
  from no show "notifications (trace (handleDelete w s row answer)) = []"
    by (simp add: handleDelete_def deletePrompt_def)
next
  assume ok: "answer \<and> doc ''Staff'' (row ''id'') = Inr ref \<and> deleteDoc w ref = Inr w'"
  then show "colls w' (fst ref) = filter (\<lambda>d. fst d \<noteq> snd ref) (colls w (fst ref))"
    by (auto simp: deleteDoc_def split: if_splits)
  from ok show "world_of (handleDelete w s row answer) = w'"
    by (simp add: handleDelete_def Let_def)
  from ok show "trace (handleDelete w s row answer) =
        deletePrompt # Call (DeleteDoc ref) #
        Notify ''Deleted!'' ''Staff member has been deleted.'' ''success'' #
        trace (fetchData w' s)"
    by (simp add: handleDelete_def Let_def deleteSuccess_def)
  show "hd (callsOf (trace (fetchData w' s))) = GetDocs ''Staff''"
    by (simp add: fetchData_calls)
  from ok show "state_of (handleDelete w s row answer) = state_of (fetchData w' s)"
    by (simp add: handleDelete_def Let_def)
next
  assume bad: "answer \<and> doc ''Staff'' (row ''id'') = Inr ref \<and> deleteDoc w ref = Inl e"
  then show "trace (handleDelete w s row answer) =
        [deletePrompt, Call (DeleteDoc ref), ConsoleError ''Error deleting staff member: '',
         Notify ''Error!'' ''There was an error deleting the staff member.'' ''error'']"
    by (simp add: handleDelete_def deleteError_def)
  from bad show "state_of (handleDelete w s row answer) = s"
    by (simp add: handleDelete_def)
  from bad show "world_of (handleDelete w s row answer) = w"
    by (simp add: handleDelete_def)
qed

lemma readOnly_simps: "colls readOnly ''Staff'' = [(''s1'', aliceData)] \<and>
  rejects readOnly (DeleteDoc ref) \<and> rejects readOnly (UpdateDoc ref data) \<and>
  rejects readOnly (AddDoc path data)"
  by (simp add: readOnly_def sampleColls_def)

theorem handleDelete_outcome_witness:
  "trace (handleDelete online loaded alice False) = [deletePrompt] \<and>
   state_of (handleDelete online loaded alice False) = loaded \<and>
   colls (world_of (handleDelete online loaded alice True)) ''Staff'' = [] \<and>
   notifications (trace (handleDelete online loaded alice True)) ! 0 =
     Notify ''Deleted!'' ''Staff member has been deleted.'' ''success'' \<and>
   callsOf (trace (handleDelete online loaded alice True)) ! 1 = GetDocs ''Staff'' \<and>
   trace (handleDelete readOnly loaded alice True) =
     [deletePrompt, Call (DeleteDoc (''Staff'', ''s1'')),
      ConsoleError ''Error deleting staff member: '',
      Notify ''Error!'' ''There was an error deleting the staff member.'' ''error''] \<and>
   state_of (handleDelete readOnly loaded alice True) = loaded"
proof -
  have ref: "doc ''Staff'' (alice ''id'') = Inr (''Staff'', ''s1'')"
    by (simp add: alice_id doc_def)
  have del: "deleteDoc online (''Staff'', ''s1'') =
      Inr (online\<lparr>colls := (colls online)(''Staff'' := [])\<rparr>)"
    by (simp add: deleteDoc_def online_simps)
  have ro: "deleteDoc readOnly (''Staff'', ''s1'') = Inl FirestoreError"
    by (simp add: deleteDoc_def readOnly_simps)
  have calls: "callsOf (trace (fetchData w s)) ! 0 = GetDocs ''Staff''" for w s
    using fetchData_shape [of w s] callsOf_Calls [of GetDocs]
    by (auto simp: callsOf_append)
  show ?thesis
    using handleDelete_outcome [of online loaded alice False]
      handleDelete_outcome [of online loaded alice True "(''Staff'', ''s1'')"
        "online\<lparr>colls := (colls online)(''Staff'' := [])\<rparr>"]
      handleDelete_outcome [of readOnly loaded alice True "(''Staff'', ''s1'')" _ FirestoreError]
    by (simp add: ref del ro deletePrompt_def calls)
qed

subsection \<open>A save that fails unnoticed\<close>

text \<open>A staff document with a field \<open>id\<close> of its own: the loader spreads the fields of the
  document over the identifier, so the row carries the field.\<close>

lemma loadFails_imported: "\<not> loadFails imported"
  by (simp add: loadFails_def imported_def online_def)

lemma loadedStaff_imported: "loadedStaff imported = [carol]"
  by (simp add: loadedStaff_def imported_def online_def carol_def)

lemma carol_id: "carol ''id'' = Some JNull"
  by (simp add: carol_def toRecord_def carolData_def)

lemma carolEdit_eq:
  "staff carolEdit = [carol] \<and> selectedStaff carolEdit = Some carol \<and> formData carolEdit = carol"
  by (simp add: carolEdit_def handleEdit_def fetchData_ok [OF loadFails_imported]
      loadedStaff_imported)

text \<open>
  C5. The failure half does not hold of every save. The store holds a staff document
  whose own field \<open>id\<close> is null; the loader makes the row \<open>carol\<close> of it, the row is edited
  and the form submitted. \<open>handleSubmit\<close> makes the reference of the target before its
  \<^verbatim>\<open>try\<close> block, \<open>doc\<close> throws, and the exception leaves the handler: the save has failed
  with no call to the store, the store and the state are as before, and no notification,
  of an error or of anything else, is shown. \<open>handleDelete\<close> makes the same reference
  inside its \<^verbatim>\<open>try\<close> block, and for the same row it catches the exception and shows its
  error notification.
\<close>

theorem handleSubmit_throws_unnotified:
  "staff (state_of (fetchData imported initialState)) = [carol] \<and>
   carol ''id'' = Some JNull \<and>
   selectedStaff carolEdit = Some carol \<and>
   thrown (handleSubmit imported carolEdit) = Some TypeError \<and>
   notifications (trace (handleSubmit imported carolEdit)) = [] \<and>
   callsOf (trace (handleSubmit imported carolEdit)) = [] \<and>
   world_of (handleSubmit imported carolEdit) = imported \<and>
   state_of (handleSubmit imported carolEdit) = carolEdit \<and>
   thrown (handleDelete imported carolEdit carol True) = None \<and>
   notifications (trace (handleDelete imported carolEdit carol True)) =
     [Notify ''Error!'' ''There was an error deleting the staff member.'' ''error'']"
proof -
  have request: "saveRequest carolEdit = Inl TypeError"
    by (simp add: saveRequest_def carolEdit_eq carol_id doc_def)
  have "doc ''Staff'' (carol ''id'') = Inl TypeError"
    by (simp add: carol_id doc_def)
  then have delete: "handleDelete imported carolEdit carol True =
    \<lparr>world_of = imported, state_of = carolEdit, trace = deletePrompt # deleteError,
     views = [carolEdit], thrown = None\<rparr>"
    by (simp add: handleDelete_def)
  have "staff (state_of (fetchData imported initialState)) = [carol]"
    by (simp add: fetchData_ok [OF loadFails_imported] loadedStaff_imported)
  then show ?thesis
    by (simp add: carol_id carolEdit_eq handleSubmit_thrown [OF request] delete
        notifications_deleteError deletePrompt_def)
qed

subsection \<open>Editing\<close>

lemma applyChanges_frame:
  "selectedStaff (applyChanges edits s) = selectedStaff s \<and>
   departments (applyChanges edits s) = departments s \<and>
   allCourses (applyChanges edits s) = allCourses s \<and>
   staff (applyChanges edits s) = staff s"
  unfolding applyChanges_def by (induction edits arbitrary: s) (simp_all add: handleChange_def)

lemma applyChanges_other:
  assumes "f \<notin> fst ` set edits"
  shows "formData (applyChanges edits s) f = formData s f"
  using assms unfolding applyChanges_def
  by (induction edits arbitrary: s) (auto simp: handleChange_def)

lemma toRecord_id: "\<exists>v. toRecord d ''id'' = Some v"
  by (cases "snd d ''id''") (auto simp: toRecord_def map_add_def)

lemma updateDoc_field:
  assumes "updateDoc w ref data = Inr w'" and "d' \<in> set (colls w' (fst ref))" and "fst d' = snd ref"
    and "data f = Some v"
  shows "snd d' f = Some v"
proof -
  let ?g = "\<lambda>d. if fst d = snd ref then (fst d, snd d ++ data) else d"
  from assms(1) have "colls w' (fst ref) = map ?g (colls w (fst ref))"
    by (auto simp: updateDoc_def split: if_splits)
  with assms(2) have "d' \<in> ?g ` set (colls w (fst ref))" by simp
  then obtain d0 where d0: "d' = ?g d0" by blast
  with assms(3) have "fst d0 = snd ref" by (auto split: if_splits)
  with d0 have "snd d' = snd d0 ++ data" by simp
  with assms(4) show ?thesis by (simp add: map_add_find_right)
qed

text \<open>
  C10. Starting an edit copies the whole fetched row into the form buffer, its \<open>id\<close>
  field included (the store-assigned identifier, when the document has no \<open>id\<close> field of
  its own). Edits in the widgets of the form change the fields they name and leave the
  rest of the row, and so the \<open>id\<close> field, in the buffer. The update call of a submit
  has the field map of the buffer with its \<open>id\<close> field, and after a successful submit
  the stored document of the target has this \<open>id\<close> field.
\<close>

theorem handleEdit_keeps_id:
  assumes "\<forall>edit \<in> set edits. fst edit \<in> set formFields"
  shows "formData (handleEdit (toRecord d) s) = toRecord d \<and>
    (\<forall>f. f \<notin> fst ` set edits \<longrightarrow>
       formData (applyChanges edits (handleEdit (toRecord d) s)) f = toRecord d f) \<and>
    (snd d ''id'' = None \<longrightarrow> toRecord d ''id'' = Some (JStr (fst d))) \<and>
    (\<exists>v. toRecord d ''id'' = Some v \<and>
       formData (applyChanges edits (handleEdit (toRecord d) s)) ''id'' = Some v \<and>
       (\<forall>w ref w'.
          doc ''Staff'' (Some v) = Inr ref \<and>
          updateDoc w ref (formData (applyChanges edits (handleEdit (toRecord d) s))) = Inr w' \<longrightarrow>
          hd (callsOf (trace (handleSubmit w (applyChanges edits (handleEdit (toRecord d) s))))) =
            UpdateDoc ref (formData (applyChanges edits (handleEdit (toRecord d) s))) \<and>
          world_of (handleSubmit w (applyChanges edits (handleEdit (toRecord d) s))) = w' \<and>
          (\<forall>d' \<in> set (colls w' ''Staff''). fst d' = snd ref \<longrightarrow> snd d' ''id'' = Some v)))"
proof -
  let ?s = "applyChanges edits (handleEdit (toRecord d) s)"
  obtain v where v: "toRecord d ''id'' = Some v" using toRecord_id by blast
  have "''id'' \<notin> set formFields" by (simp add: formFields_def)
  with assms have "''id'' \<notin> fst ` set edits" by auto
  then have "formData ?s ''id'' = formData (handleEdit (toRecord d) s) ''id''"
    by (rule applyChanges_other)
  with v have id: "formData ?s ''id'' = Some v" by (simp add: handleEdit_def)
  have target: "selectedStaff ?s = Some (toRecord d)"
    by (simp add: applyChanges_frame handleEdit_def)
  have "hd (callsOf (trace (handleSubmit w ?s))) = UpdateDoc ref (formData ?s) \<and>
        world_of (handleSubmit w ?s) = w' \<and>
        (\<forall>d' \<in> set (colls w' ''Staff''). fst d' = snd ref \<longrightarrow> snd d' ''id'' = Some v)"
    if ok: "doc ''Staff'' (Some v) = Inr ref \<and> updateDoc w ref (formData ?s) = Inr w'"
    for w ref w'
  proof -
    from ok target v have rq: "saveRequest ?s = Inr (UpdateDoc ref (formData ?s))"
      by (simp add: saveRequest_def)
    from ok have sent: "send w (UpdateDoc ref (formData ?s)) = Inr w'" by simp
    from ok have "fst ref = ''Staff''"
      by (auto simp: doc_def split: option.splits jsval.splits if_splits)
    with ok id have "\<forall>d' \<in> set (colls w' ''Staff''). fst d' = snd ref \<longrightarrow> snd d' ''id'' = Some v"
      using updateDoc_field [of w ref "formData ?s" w' _ "''id''" v] by auto
    then show ?thesis by (simp add: handleSubmit_ok [OF rq sent])
  qed
  then have "\<forall>w ref w'.
      doc ''Staff'' (Some v) = Inr ref \<and> updateDoc w ref (formData ?s) = Inr w' \<longrightarrow>
      hd (callsOf (trace (handleSubmit w ?s))) = UpdateDoc ref (formData ?s) \<and>
      world_of (handleSubmit w ?s) = w' \<and>
      (\<forall>d' \<in> set (colls w' ''Staff''). fst d' = snd ref \<longrightarrow> snd d' ''id'' = Some v)"
    by blast
  with v id have "\<exists>v. toRecord d ''id'' = Some v \<and> formData ?s ''id'' = Some v \<and>
    (\<forall>w ref w'.
      doc ''Staff'' (Some v) = Inr ref \<and> updateDoc w ref (formData ?s) = Inr w' \<longrightarrow>
      hd (callsOf (trace (handleSubmit w ?s))) = UpdateDoc ref (formData ?s) \<and>
      world_of (handleSubmit w ?s) = w' \<and>
      (\<forall>d' \<in> set (colls w' ''Staff''). fst d' = snd ref \<longrightarrow> snd d' ''id'' = Some v))"
    by blast
  moreover have "formData (handleEdit (toRecord d) s) = toRecord d"
    by (simp add: handleEdit_def)
  moreover have "snd d ''id'' = None \<longrightarrow> toRecord d ''id'' = Some (JStr (fst d))"
    by (simp add: toRecord_def map_add_def)
  moreover have "\<forall>f. f \<notin> fst ` set edits \<longrightarrow> formData ?s f = toRecord d f"
    by (simp add: applyChanges_other handleEdit_def)
  ultimately show ?thesis by blast
qed

theorem handleEdit_keeps_id_witness:
  "formData aliceEdit ''id'' = Some (JStr ''s1'') \<and>
   hd (callsOf (trace (handleSubmit online aliceEdit))) =
     UpdateDoc (''Staff'', ''s1'') (formData aliceEdit) \<and>
   map (\<lambda>d. snd d ''id'') (colls (world_of (handleSubmit online aliceEdit)) ''Staff'') =
     [Some (JStr ''s1'')] \<and>
   formData aliceEdit ''firstName'' = alice ''firstName'' \<and>
   aliceData ''id'' = None"
proof -
  let ?w' = "online\<lparr>colls := (colls online)(''Staff'' := [(''s1'', aliceData ++ formData aliceEdit)])\<rparr>"
  have edits: "\<forall>edit \<in> set [(''address'', ''Davao'')]. fst edit \<in> set formFields"
    by (simp add: formFields_def)
  have s: "applyChanges [(''address'', ''Davao'')] (handleEdit alice loaded) = aliceEdit"
    by (simp add: applyChanges_def aliceEdit_def)
  have upd: "updateDoc online (''Staff'', ''s1'') (formData aliceEdit) = Inr ?w'"
    by (simp add: updateDoc_def online_simps)
  have ref: "doc ''Staff'' (Some (JStr ''s1'')) = Inr (''Staff'', ''s1'')"
    by (simp add: doc_def)
  from handleEdit_keeps_id [OF edits, of "(''s1'', aliceData)" loaded]
  have "\<exists>v. alice ''id'' = Some v \<and> formData aliceEdit ''id'' = Some v \<and>
    (\<forall>w ref w'.
      doc ''Staff'' (Some v) = Inr ref \<and> updateDoc w ref (formData aliceEdit) = Inr w' \<longrightarrow>
      hd (callsOf (trace (handleSubmit w aliceEdit))) = UpdateDoc ref (formData aliceEdit) \<and>
      world_of (handleSubmit w aliceEdit) = w' \<and>
      (\<forall>d' \<in> set (colls w' ''Staff''). fst d' = snd ref \<longrightarrow> snd d' ''id'' = Some v))"
    by (simp only: alice_def [symmetric] s)
  then obtain v where v: "alice ''id'' = Some v" "formData aliceEdit ''id'' = Some v"
    and run: "\<forall>w ref w'.
      doc ''Staff'' (Some v) = Inr ref \<and> updateDoc w ref (formData aliceEdit) = Inr w' \<longrightarrow>
      hd (callsOf (trace (handleSubmit w aliceEdit))) = UpdateDoc ref (formData aliceEdit) \<and>
      world_of (handleSubmit w aliceEdit) = w' \<and>
      (\<forall>d' \<in> set (colls w' ''Staff''). fst d' = snd ref \<longrightarrow> snd d' ''id'' = Some v)"
    by blast
  from v(1) alice_id have "v = JStr ''s1''" by simp
  with v(2) have id: "formData aliceEdit ''id'' = Some (JStr ''s1'')" by simp
  from run [rule_format, of "(''Staff'', ''s1'')" online ?w'] ref upd \<open>v = JStr ''s1''\<close>
  have "hd (callsOf (trace (handleSubmit online aliceEdit))) =
      UpdateDoc (''Staff'', ''s1'') (formData aliceEdit)"
    and "world_of (handleSubmit online aliceEdit) = ?w'"
    and "\<forall>d' \<in> set (colls ?w' ''Staff''). fst d' = ''s1'' \<longrightarrow> snd d' ''id'' = Some (JStr ''s1'')"
    by simp_all
  moreover have "aliceData ''id'' = None" by (simp add: aliceData_def)
  moreover from handleEdit_keeps_id [OF edits, of "(''s1'', aliceData)" loaded]
  have "formData aliceEdit ''firstName'' = alice ''firstName''"
    by (simp add: alice_def [symmetric] s)
  ultimately show ?thesis using id by simp
qed

subsection \<open>Submitting the form\<close>

lemma saveRequest_payload:
  assumes "saveRequest s = Inr rq"
  shows "payload rq = Some (formData s)"
  using assms by (auto simp: saveRequest_def split: option.splits sum.splits)

lemma handleSubmit_payloads:
  assumes "rq \<in> set (callsOf (trace (handleSubmit w s)))" and "payload rq = Some data"
  shows "data = formData s"
proof (cases "saveRequest s")
  case (Inl e)
  with assms(1) show ?thesis by (simp add: handleSubmit_thrown)
next
  case (Inr rq0)
  then have first: "payload rq0 = Some (formData s)" by (rule saveRequest_payload)
  show ?thesis
  proof (cases "send w rq0")
    case (Inl e)
    with Inr assms(1) have "rq = rq0"
      by (simp add: handleSubmit_rejected saveError_def)
    with first assms(2) show ?thesis by simp
  next
    case (Inr w')
    with \<open>saveRequest s = Inr rq0\<close> assms(1)
    have "rq = rq0 \<or> rq \<in> set (callsOf (trace (fetchData w' (resetForm s))))"
      by (simp add: handleSubmit_ok saveSuccess_def)
    with assms(2) fetchData_calls [of w' "resetForm s"] have "rq = rq0" by auto
    with first assms(2) show ?thesis by simp
  qed
qed

lemma inputValue_cell:
  "inputValue before v \<noteq> [] \<Longrightarrow> (case v of Some (JStr x) \<Rightarrow> x \<noteq> [] | _ \<Rightarrow> before \<noteq> [])"
  by (simp add: inputValue_def split: option.splits jsval.splits)

lemma selectValue_cell:
  "selectValue options before v \<noteq> [] \<Longrightarrow>
     (case v of Some (JStr x) \<Rightarrow> x \<noteq> [] | _ \<Rightarrow> before \<noteq> [])"
  by (auto simp: selectValue_def split: option.splits jsval.splits if_splits)

lemma formValid_cells:
  assumes "formValid s shown" and "f \<in> set mandatoryFields"
  shows "case formData s f of Some (JStr x) \<Rightarrow> x \<noteq> [] | _ \<Rightarrow> shown f \<noteq> []"
proof -
  from assms(1) have widgets:
    "inputValue (shown ''firstName'') (formData s ''firstName'') \<noteq> []"
    "inputValue (shown ''lastName'') (formData s ''lastName'') \<noteq> []"
    "inputValue (shown ''address'') (formData s ''address'') \<noteq> []"
    "inputValue (shown ''mobileNumber'') (formData s ''mobileNumber'') \<noteq> []"
    "selectValue GENDERS (shown ''gender'') (formData s ''gender'') \<noteq> []"
    "selectValue POSITIONS (shown ''position'') (formData s ''position'') \<noteq> []"
    "selectValue (departmentOptions s) (shown ''department'') (formData s ''department'') \<noteq> []"
    unfolding formValid_def by simp_all
  from assms(2) have "f = ''firstName'' \<or> f = ''lastName'' \<or> f = ''gender'' \<or> f = ''address'' \<or>
      f = ''mobileNumber'' \<or> f = ''position'' \<or> f = ''department''"
    by (simp add: mandatoryFields_def)
  then show ?thesis
  proof (elim disjE)
    assume f: "f = ''firstName''"
    have "case formData s ''firstName'' of Some (JStr x) \<Rightarrow> x \<noteq> [] | _ \<Rightarrow> shown ''firstName'' \<noteq> []"
      by (rule inputValue_cell [OF widgets(1)])
    then show ?thesis by (simp only: f)
  next
    assume f: "f = ''lastName''"
    have "case formData s ''lastName'' of Some (JStr x) \<Rightarrow> x \<noteq> [] | _ \<Rightarrow> shown ''lastName'' \<noteq> []"
      by (rule inputValue_cell [OF widgets(2)])
    then show ?thesis by (simp only: f)
  next
    assume f: "f = ''gender''"
    have "case formData s ''gender'' of Some (JStr x) \<Rightarrow> x \<noteq> [] | _ \<Rightarrow> shown ''gender'' \<noteq> []"
      by (rule selectValue_cell [OF widgets(5)])
    then show ?thesis by (simp only: f)
  next
    assume f: "f = ''address''"
    have "case formData s ''address'' of Some (JStr x) \<Rightarrow> x \<noteq> [] | _ \<Rightarrow> shown ''address'' \<noteq> []"
      by (rule inputValue_cell [OF widgets(3)])
    then show ?thesis by (simp only: f)
  next
    assume f: "f = ''mobileNumber''"
    have "case formData s ''mobileNumber'' of Some (JStr x) \<Rightarrow> x \<noteq> [] | _ \<Rightarrow> shown ''mobileNumber'' \<noteq> []"
      by (rule inputValue_cell [OF widgets(4)])
    then show ?thesis by (simp only: f)
  next
    assume f: "f = ''position''"
    have "case formData s ''position'' of Some (JStr x) \<Rightarrow> x \<noteq> [] | _ \<Rightarrow> shown ''position'' \<noteq> []"
      by (rule selectValue_cell [OF widgets(6)])
    then show ?thesis by (simp only: f)
  next
    assume f: "f = ''department''"
    have "case formData s ''department'' of Some (JStr x) \<Rightarrow> x \<noteq> [] | _ \<Rightarrow> shown ''department'' \<noteq> []"
      by (rule selectValue_cell [OF widgets(7)])
    then show ?thesis by (simp only: f)
  qed
qed

text \<open>
  C7, as amended. Every field map that a submit of the form passes to a create or an
  update call is the form buffer as it is. Each of firstName, lastName, gender, address,
  mobileNumber, position and department that holds a string in it holds one that is not
  empty; one that is missing or null in it is passed as it is, and then its widget showed
  a value before that is not empty. The course has no such constraint.
\<close>

theorem onSubmit_writes_filled:
  assumes "rq \<in> set (callsOf (trace (onSubmit w s shown)))" and "payload rq = Some data"
  shows "data = formData s \<and>
    (\<forall>f \<in> set mandatoryFields.
       case data f of Some (JStr x) \<Rightarrow> x \<noteq> [] | _ \<Rightarrow> shown f \<noteq> [])"
proof -
  from assms(1) have valid: "formValid s shown"
    by (cases "formValid s shown") (simp_all add: onSubmit_def)
  with assms(1) have "rq \<in> set (callsOf (trace (handleSubmit w s)))"
    by (simp add: onSubmit_def)
  then have "data = formData s" using assms(2) by (rule handleSubmit_payloads)
  with valid show ?thesis by (simp add: formValid_cells)
qed

lemma onSubmit_first_call:
  assumes "formValid s shown" and "saveRequest s = Inr rq" and "send w rq = Inr w'"
  shows "callsOf (trace (onSubmit w s shown)) ! 0 = rq \<and>
         rq \<in> set (callsOf (trace (onSubmit w s shown)))"
  using assms by (simp add: onSubmit_def handleSubmit_ok)

lemma blank_cell_filled:
  "(case v of Some (JStr x) \<Rightarrow> x \<noteq> [] | _ \<Rightarrow> blank f \<noteq> []) \<Longrightarrow> filled v"
  by (simp add: filled_def blank_def split: option.splits jsval.splits)

lemma formValid_bobForm: "formValid bobForm blank"
  by (simp add: formValid_def bobForm_eq bobData_def inputValue_def selectValue_def
      GENDERS_def POSITIONS_def departmentOptions_def loadedDepartments_online toRecord_def)

lemma onSubmit_bobForm:
  "callsOf (trace (onSubmit online bobForm blank)) ! 0 = AddDoc ''Staff'' (formData bobForm) \<and>
   AddDoc ''Staff'' (formData bobForm) \<in> set (callsOf (trace (onSubmit online bobForm blank)))"
proof -
  have "saveRequest bobForm = Inr (AddDoc ''Staff'' (formData bobForm))"
    by (simp add: saveRequest_def bobForm_eq)
  moreover have "send online (AddDoc ''Staff'' (formData bobForm)) =
      Inr (online\<lparr>colls := (colls online)(''Staff'' :=
        colls online ''Staff'' @ [(autoId online (colls online ''Staff''), formData bobForm)])\<rparr>)"
    by (simp add: addDoc_def online_simps)
  ultimately show ?thesis
    using formValid_bobForm by (rule onSubmit_first_call [rotated])
qed

text \<open>The edit of a row without an address, in a form whose address input still shows a
  text: the form is valid, and the update call carries no address.\<close>

lemma noAddressEdit_eq:
  "formData noAddressEdit = noAddress \<and> selectedStaff noAddressEdit = Some noAddress \<and>
   departments noAddressEdit = loadedDepartments online"
  by (simp add: noAddressEdit_def handleEdit_def loaded_eq)

lemma noAddress_cells:
  "noAddress ''id'' = Some (JStr ''s1'') \<and> noAddress ''address'' = None \<and>
   noAddress ''firstName'' = Some (JStr ''Alice'') \<and> noAddress ''lastName'' = Some (JStr ''Cruz'') \<and>
   noAddress ''mobileNumber'' = Some (JStr ''0917'') \<and> noAddress ''gender'' = Some (JStr ''Female'') \<and>
   noAddress ''position'' = Some (JStr ''Teacher'') \<and>
   noAddress ''department'' = Some (JStr ''Board Courses'')"
  by (simp add: noAddress_def toRecord_def aliceData_def)

lemma formValid_noAddress: "formValid noAddressEdit addressShown"
  by (simp add: formValid_def noAddressEdit_eq noAddress_cells addressShown_def inputValue_def
      selectValue_def GENDERS_def POSITIONS_def departmentOptions_def loadedDepartments_online
      toRecord_def)

lemma onSubmit_noAddress:
  "callsOf (trace (onSubmit online noAddressEdit addressShown)) ! 0 =
     UpdateDoc (''Staff'', ''s1'') noAddress \<and>
   UpdateDoc (''Staff'', ''s1'') noAddress \<in>
     set (callsOf (trace (onSubmit online noAddressEdit addressShown)))"
proof -
  have rq: "saveRequest noAddressEdit = Inr (UpdateDoc (''Staff'', ''s1'') noAddress)"
    by (simp add: saveRequest_def noAddressEdit_eq noAddress_cells doc_def)
  have "send online (UpdateDoc (''Staff'', ''s1'') noAddress) =
      Inr (online\<lparr>colls := (colls online)(''Staff'' := [(''s1'', aliceData ++ noAddress)])\<rparr>)"
    by (simp add: updateDoc_def online_simps)
  with formValid_noAddress rq show ?thesis by (rule onSubmit_first_call)
qed

theorem onSubmit_writes_filled_witness:
  "callsOf (trace (onSubmit online bobForm blank)) ! 0 = AddDoc ''Staff'' (formData bobForm) \<and>
   filled (formData bobForm ''firstName'') \<and> filled (formData bobForm ''lastName'') \<and>
   filled (formData bobForm ''gender'') \<and> filled (formData bobForm ''address'') \<and>
   filled (formData bobForm ''mobileNumber'') \<and> filled (formData bobForm ''position'') \<and>
   filled (formData bobForm ''department'') \<and>
   callsOf (trace (onSubmit online noAddressEdit addressShown)) ! 0 =
     UpdateDoc (''Staff'', ''s1'') noAddress \<and>
   noAddress ''address'' = None \<and> addressShown ''address'' \<noteq> []"
proof -
  have bob: "AddDoc ''Staff'' (formData bobForm) \<in> set (callsOf (trace (onSubmit online bobForm blank)))"
    by (simp add: onSubmit_bobForm)
  have pay: "payload (AddDoc ''Staff'' (formData bobForm)) = Some (formData bobForm)"
    by simp
  have "\<forall>f \<in> set mandatoryFields.
      case formData bobForm f of Some (JStr x) \<Rightarrow> x \<noteq> [] | _ \<Rightarrow> blank f \<noteq> []"
    using onSubmit_writes_filled [OF bob pay] by simp
  then have "\<forall>f \<in> set mandatoryFields. filled (formData bobForm f)"
    by (blast intro: blank_cell_filled)
  then have filled: "filled (formData bobForm ''firstName'') \<and> filled (formData bobForm ''lastName'') \<and>
    filled (formData bobForm ''gender'') \<and> filled (formData bobForm ''address'') \<and>
    filled (formData bobForm ''mobileNumber'') \<and> filled (formData bobForm ''position'') \<and>
    filled (formData bobForm ''department'')"
    by (simp add: mandatoryFields_def)
  have upd: "UpdateDoc (''Staff'', ''s1'') noAddress \<in>
      set (callsOf (trace (onSubmit online noAddressEdit addressShown)))"
    by (simp add: onSubmit_noAddress)
  have pay': "payload (UpdateDoc (''Staff'', ''s1'') noAddress) = Some noAddress"
    by simp
  have "\<forall>f \<in> set mandatoryFields.
      case noAddress f of Some (JStr x) \<Rightarrow> x \<noteq> [] | _ \<Rightarrow> addressShown f \<noteq> []"
    using onSubmit_writes_filled [OF upd pay'] by simp
  then have "case noAddress ''address'' of Some (JStr x) \<Rightarrow> x \<noteq> [] | _ \<Rightarrow> addressShown ''address'' \<noteq> []"
    by (simp add: mandatoryFields_def)
  then have "addressShown ''address'' \<noteq> []"
    by (simp add: noAddress_cells)
  with filled show ?thesis
    by (simp add: onSubmit_bobForm onSubmit_noAddress noAddress_cells)
qed

text \<open>
  C7 as stated fails: a valid form with a department chosen and no course is submitted,
  and the create call carries an empty course beside a department.
\<close>

theorem onSubmit_course_empty:
  "formValid bobForm blank \<and>
   callsOf (trace (onSubmit online bobForm blank)) ! 0 = AddDoc ''Staff'' (formData bobForm) \<and>
   formData bobForm ''department'' = Some (JStr ''Non-Board Courses'') \<and>
   formData bobForm ''course'' = Some (JStr '''') \<and>
   \<not> persistable (formData bobForm)"
  by (simp add: formValid_bobForm onSubmit_bobForm)
     (simp add: bobForm_eq bobData_def persistable_def filled_def)

subsection \<open>The select of the course\<close>

lemma allCourses_loaded:
  "allCourses loaded ''Non-Board Courses'' = Some [] \<and>
   allCourses loaded ''Board Courses'' = Some [toRecord (''BSN'', [''name'' \<mapsto> JStr ''Nursing''])]"
  by (simp add: loaded_eq loadedCourses_def loadedDepartments_online)
     (simp add: toRecord_def coursesPath_def online_def sampleColls_def)

text \<open>
  C8, as amended. When the courses mapping has no course for a department, choosing
  that department leaves the course select with its placeholder as the only option, and
  the select is disabled only if the identifier chosen is the empty string: for a
  department proper it stays enabled.
\<close>

theorem course_select_empty_department:
  assumes "allCourses s d = Some []"
  shows "courseOptions (handleChange ''department'' d s) = [('''', ''Select Course'')] \<and>
         (courseDisabled (handleChange ''department'' d s) \<longleftrightarrow> d = '''')"
  using assms by (simp add: courseOptions_def courseDisabled_def handleChange_def)

theorem course_select_empty_department_witness:
  "allCourses loaded ''Non-Board Courses'' = Some [] \<and>
   courseOptions (handleChange ''department'' ''Non-Board Courses'' loaded) = [('''', ''Select Course'')] \<and>
   courseDisabled (handleChange ''department'' ''Non-Board Courses'' loaded) = False"
  using course_select_empty_department [of loaded "''Non-Board Courses''"]
  by (simp add: allCourses_loaded)

text \<open>
  C8 as stated fails: after the load, choosing the department without courses leaves the
  course select enabled, with the placeholder among its options.
\<close>

theorem course_select_enabled:
  "colls online ''Departments/Non-Board Courses/Courses'' = [] \<and>
   allCourses loaded ''Non-Board Courses'' = Some [] \<and>
   \<not> courseDisabled (handleChange ''department'' ''Non-Board Courses'' loaded) \<and>
   courseOptions (handleChange ''department'' ''Non-Board Courses'' loaded) \<noteq> []"
  by (simp add: allCourses_loaded)
     (simp add: online_def sampleColls_def courseDisabled_def courseOptions_def handleChange_def)

end
